theory Spec2Isabelle
  imports Complex_Main "HOL-Library.Word"
begin

section \<open>Data model\<close>

text \<open>
  The script in \<^verbatim>\<open>src/main.py\<close> replays a template transaction against an RPC node.
  Bytes are 8-bit words; block hashes and transaction signatures are opaque tokens.
\<close>

type_synonym byte = "8 word"

text \<open>
  The decoded transaction, as the dictionary that \<^verbatim>\<open>json.loads(tx_json)\<close> yields and
  that line 53 indexes: \<^verbatim>\<open>tx['message']['instructions'][1]['data'][-1]\<close>.
\<close>

record instruction =
  program_id_index :: nat
  accounts :: "byte list"
  data :: "byte list"

record message =
  header :: "nat \<times> nat \<times> nat"
  account_keys :: "string list"
  recent_blockhash :: string
  instructions :: "instruction list"

record tx_json =
  signatures :: "string list"
  message :: message

text \<open>
  What \<^verbatim>\<open>ast.literal_eval\<close> returns for a key cell (line 120). The script only
  ever applies \<^verbatim>\<open>bytes\<close> to it (lines 40 and 134), so a literal that is not a list
  of integers, such as \<^verbatim>\<open>5\<close> or \<^verbatim>\<open>'abc'\<close>, is known by what
  \<^verbatim>\<open>bytes\<close> makes of it: its result, or \<open>None\<close> when it raises.
\<close>

datatype py_literal = IntList "int list" | OtherLiteral "byte list option"

text \<open>One row of the loaded dataset: the dictionary built at line 123.\<close>

record account_task =
  private_key :: py_literal
  base64_data :: string
  repeat_count :: int

text \<open>
  The two objects that \<^verbatim>\<open>process_wallet\<close> hands to every call of
  \<^verbatim>\<open>send_modified_transaction\<close>. Python passes them by reference, so the callee
  returns them and the caller goes on with what it gets back.
\<close>

record inputs =
  in_base64_data :: string
  in_private_key :: py_literal

text \<open>
  Exceptions, one constructor per raise site:
  \<^item> \<open>RuntimeError_blockhash\<close>: line 37, no block hash after the retries;
  \<^item> \<open>Keypair_error\<close>: \<^verbatim>\<open>Keypair.from_bytes(bytes(private_key))\<close>, lines 40 and 134;
  \<^item> \<open>ValueError_deserialize\<close>: line 48;
  \<^item> \<open>ValueError_modify\<close>: line 57;
  \<^item> \<open>Sign_error\<close>: \<^verbatim>\<open>tx.sign(keypair)\<close>, line 61;
  \<^item> \<open>RuntimeError_send\<close>: line 69;
  \<^item> \<open>RuntimeError_csv\<close>: line 126.
\<close>

datatype py_error =
  RuntimeError_blockhash
  | Keypair_error
  | ValueError_deserialize
  | ValueError_modify
  | Sign_error
  | RuntimeError_send
  | RuntimeError_csv

text \<open>What \<^verbatim>\<open>client.get_transaction\<close> can answer (lines 81 to 106).\<close>

datatype tx_status =
  QueryRaises
  | ValueNone
  | MetaNone
  | MetaErr string
  | MetaOk

text \<open>
  The observable effects, in the order they happen. \<open>SleepUniform a b\<close> is
  \<^verbatim>\<open>time.sleep(random.uniform(a, b))\<close>; \<open>LogStart i\<close> is the print of line 140 and
  \<open>LogError i e\<close> the print of line 157, both for loop index \<open>i\<close>.
\<close>

datatype event =
  RpcGetBlockhash
  | RpcSend "byte list"
  | RpcGetTransaction string
  | Sleep real
  | SleepUniform real real
  | LogStart nat
  | LogError nat py_error

text \<open>
  The world of one account's worker: what the RPC node and the random generator answer
  to the k-th call of each kind, how many calls were made so far, and the trace.
  An answer \<open>None\<close> is a raised exception.
\<close>

record world =
  blockhash_script :: "nat \<Rightarrow> string option"
  send_script :: "nat \<Rightarrow> string option"
  status_script :: "nat \<Rightarrow> tx_status"
  randint_script :: "nat \<Rightarrow> byte"
  n_blockhash :: nat
  n_send :: nat
  n_status :: nat
  n_randint :: nat
  trace :: "event list"

text \<open>
  The deterministic library calls the script relies on; \<open>None\<close> and \<open>False\<close> stand
  for a raised exception.
  \<^item> \<open>lib_keypair_ok\<close>: \<^verbatim>\<open>Keypair.from_bytes\<close> accepts the bytes;
  \<^item> \<open>lib_decode\<close>: lines 44 to 46;
  \<^item> \<open>lib_from_json_ok\<close>: line 55 accepts the edited dictionary;
  \<^item> \<open>lib_sign\<close>: line 61; \<open>lib_serialize\<close>: \<^verbatim>\<open>tx.serialize(False)\<close>, line 65;
  \<^item> \<open>lib_read_csv\<close>, \<open>lib_literal_eval\<close>, \<open>lib_int\<close>: lines 117, 120 and 122.
\<close>

record csv_row =
  cell_private_key :: string
  cell_data :: string
  cell_repeat_count :: string

record library =
  lib_keypair_ok :: "byte list \<Rightarrow> bool"
  lib_decode :: "string \<Rightarrow> tx_json option"
  lib_from_json_ok :: "tx_json \<Rightarrow> bool"
  lib_sign :: "byte list \<Rightarrow> tx_json \<Rightarrow> tx_json option"
  lib_serialize :: "tx_json \<Rightarrow> byte list option"
  lib_read_csv :: "string \<Rightarrow> csv_row list option"
  lib_literal_eval :: "string \<Rightarrow> py_literal option"
  lib_int :: "string \<Rightarrow> int option"

section \<open>Effects\<close>

definition emit :: "event \<Rightarrow> world \<Rightarrow> world" where
  "emit e w = w\<lparr>trace := trace w @ [e]\<rparr>"

definition rpc_get_latest_blockhash :: "world \<Rightarrow> string option \<times> world" where
  "rpc_get_latest_blockhash w =
     (blockhash_script w (n_blockhash w),
      emit RpcGetBlockhash (w\<lparr>n_blockhash := Suc (n_blockhash w)\<rparr>))"

definition rpc_send_raw_transaction :: "byte list \<Rightarrow> world \<Rightarrow> string option \<times> world" where
  "rpc_send_raw_transaction raw w =
     (send_script w (n_send w), emit (RpcSend raw) (w\<lparr>n_send := Suc (n_send w)\<rparr>))"

definition rpc_get_transaction :: "string \<Rightarrow> world \<Rightarrow> tx_status \<times> world" where
  "rpc_get_transaction sg w =
     (status_script w (n_status w),
      emit (RpcGetTransaction sg) (w\<lparr>n_status := Suc (n_status w)\<rparr>))"

definition randint :: "world \<Rightarrow> byte \<times> world" where
  "randint w = (randint_script w (n_randint w), w\<lparr>n_randint := Suc (n_randint w)\<rparr>)"

section \<open>Block hash with retry (lines 22 to 37)\<close>

text \<open>
  The \<^verbatim>\<open>for attempt in range(1, retries + 1)\<close> loop, entered at \<open>attempt\<close>. A loop
  that runs out without returning gives Python's implicit \<open>None\<close>.
\<close>

function blockhash_attempts :: "nat \<Rightarrow> nat \<Rightarrow> real \<Rightarrow> world \<Rightarrow> string option \<times> world" where
  "blockhash_attempts attempt retries delay w =
     (if retries < attempt then (None, w)
      else (case rpc_get_latest_blockhash w of
              (Some h, w') \<Rightarrow> (Some h, w')
            | (None, w') \<Rightarrow>
                if attempt < retries
                then blockhash_attempts (Suc attempt) retries delay (emit (Sleep delay) w')
                else (None, w')))"
  by pat_completeness auto
termination
  by (relation "measure (\<lambda>(attempt, retries, delay, w). Suc retries - attempt)") auto

definition get_latest_blockhash_with_retry :: "world \<Rightarrow> string option \<times> world" where
  "get_latest_blockhash_with_retry w = blockhash_attempts 1 5 (1 / 2) w"

section \<open>The mutation (lines 50 to 57)\<close>

text \<open>
  Line 53. Index 1 of a list shorter than two and index -1 of an empty list raise
  IndexError, here \<open>None\<close>; the caller turns either into \<open>ValueError_modify\<close>.
\<close>

definition set_last_data_byte :: "byte \<Rightarrow> tx_json \<Rightarrow> tx_json option" where
  "set_last_data_byte random_number tx =
     (let ins = instructions (message tx) in
      if length ins < 2 then None
      else let d = data (ins ! 1) in
        if d = [] then None
        else Some (tx\<lparr>message := (message tx)\<lparr>instructions :=
               ins[1 := (ins ! 1)\<lparr>data := d[length d - 1 := random_number]\<rparr>]\<rparr>\<rparr>))"

section \<open>Key handling (lines 40 and 134)\<close>

text \<open>
  \<^verbatim>\<open>bytes(private_key)\<close> on a list of integers raises ValueError unless every
  integer is in range(256).
\<close>

definition py_bytes :: "py_literal \<Rightarrow> byte list option" where
  "py_bytes key =
     (case key of
        IntList xs \<Rightarrow>
          if list_all (\<lambda>x. 0 \<le> x \<and> x < 256) xs then Some (map word_of_int xs) else None
      | OtherLiteral r \<Rightarrow> r)"

definition keypair_from_bytes :: "library \<Rightarrow> py_literal \<Rightarrow> py_error + byte list" where
  "keypair_from_bytes L key =
     (case py_bytes key of
        None \<Rightarrow> Inl Keypair_error
      | Some bs \<Rightarrow> if lib_keypair_ok L bs then Inr bs else Inl Keypair_error)"

section \<open>One submission (lines 10 to 69)\<close>

definition send_modified_transaction ::
  "library \<Rightarrow> inputs \<Rightarrow> world \<Rightarrow> (py_error + string) \<times> inputs \<times> world" where
  "send_modified_transaction L inp w =
     (case get_latest_blockhash_with_retry w of
        (None, w1) \<Rightarrow> (Inl RuntimeError_blockhash, inp, w1)
      | (Some blockhash, w1) \<Rightarrow>
          (case keypair_from_bytes L (in_private_key inp) of
             Inl e \<Rightarrow> (Inl e, inp, w1)
           | Inr keypair \<Rightarrow>
               (case lib_decode L (in_base64_data inp) of
                  None \<Rightarrow> (Inl ValueError_deserialize, inp, w1)
                | Some tx \<Rightarrow>
                    (case randint w1 of
                       (random_number, w2) \<Rightarrow>
                         (case set_last_data_byte random_number tx of
                            None \<Rightarrow> (Inl ValueError_modify, inp, w2)
                          | Some tx' \<Rightarrow>
                              if \<not> lib_from_json_ok L tx' then (Inl ValueError_modify, inp, w2)
                              else
                                (case lib_sign L keypair
                                        (tx'\<lparr>message := (message tx')\<lparr>recent_blockhash := blockhash\<rparr>\<rparr>) of
                                   None \<Rightarrow> (Inl Sign_error, inp, w2)
                                 | Some signed_tx \<Rightarrow>
                                     (case lib_serialize L signed_tx of
                                        None \<Rightarrow> (Inl RuntimeError_send, inp, w2)
                                      | Some raw \<Rightarrow>
                                          (case rpc_send_raw_transaction raw w2 of
                                             (None, w3) \<Rightarrow> (Inl RuntimeError_send, inp, w3)
                                           | (Some tx_signature, w3) \<Rightarrow>
                                               (Inr tx_signature, inp, w3)))))))))"

section \<open>Status check (lines 72 to 106)\<close>

definition check_transaction_status :: "string \<Rightarrow> world \<Rightarrow> bool \<times> world" where
  "check_transaction_status tx_signature w =
     (case rpc_get_transaction tx_signature w of
        (QueryRaises, w') \<Rightarrow> (False, w')
      | (ValueNone, w') \<Rightarrow> (False, w')
      | (MetaNone, w') \<Rightarrow> (False, w')
      | (MetaErr d, w') \<Rightarrow> (False, w')
      | (MetaOk, w') \<Rightarrow> (True, w'))"

section \<open>The replay loop (lines 129 to 157)\<close>

text \<open>
  The \<^verbatim>\<open>while True\<close> of line 145. It has no bound, so the model is partial:
  \<open>None\<close> is a loop that never leaves.
\<close>

partial_function (option) confirmation_loop :: "string \<Rightarrow> world \<Rightarrow> world option" where
  "confirmation_loop tx_signature w =
     (case check_transaction_status tx_signature w of
        (confirmed, w') \<Rightarrow>
          if confirmed then Some (emit (SleepUniform 2 5) w')
          else confirmation_loop tx_signature (emit (Sleep 5) w'))"

text \<open>The body of the \<^verbatim>\<open>for\<close> loop: lines 139 to 157, with its catch-all handler.\<close>

definition iteration :: "library \<Rightarrow> nat \<Rightarrow> inputs \<times> world \<Rightarrow> (inputs \<times> world) option" where
  "iteration L i s =
     (case send_modified_transaction L (fst s) (emit (LogStart i) (snd s)) of
        (Inl e, inp', w1) \<Rightarrow> Some (inp', emit (LogError i e) w1)
      | (Inr tx_signature, inp', w1) \<Rightarrow>
          (case confirmation_loop tx_signature w1 of
             None \<Rightarrow> None
           | Some w2 \<Rightarrow> Some (inp', w2)))"

fun replay_loop :: "library \<Rightarrow> nat list \<Rightarrow> inputs \<times> world \<Rightarrow> (inputs \<times> world) option" where
  "replay_loop L [] s = Some s"
| "replay_loop L (i # rest) s =
     (case iteration L i s of None \<Rightarrow> None | Some s' \<Rightarrow> replay_loop L rest s')"

text \<open>
  \<^verbatim>\<open>range(repeat_count)\<close> is empty for a count of zero or less: \<open>nat\<close> of such an
  integer is 0. The result is \<open>None\<close> when the function never returns, \<open>Inl e\<close>
  when it raises \<open>e\<close>.
\<close>

definition process_wallet ::
  "library \<Rightarrow> account_task \<Rightarrow> world \<Rightarrow> ((py_error + unit) \<times> world) option" where
  "process_wallet L task w =
     (case keypair_from_bytes L (private_key task) of
        Inl e \<Rightarrow> Some (Inl e, w)
      | Inr keypair \<Rightarrow>
          (case replay_loop L [0..<nat (repeat_count task)]
                  (\<lparr>in_base64_data = base64_data task, in_private_key = private_key task\<rparr>, w) of
             None \<Rightarrow> None
           | Some s \<Rightarrow> Some (Inr (), snd s)))"

section \<open>Loading the dataset (lines 109 to 126 and 161 to 170)\<close>

fun read_rows :: "library \<Rightarrow> csv_row list \<Rightarrow> account_task list \<Rightarrow> py_error + account_task list" where
  "read_rows L [] acc = Inr acc"
| "read_rows L (row # rows) acc =
     (case lib_literal_eval L (cell_private_key row) of
        None \<Rightarrow> Inl RuntimeError_csv
      | Some pk \<Rightarrow>
          (case lib_int L (cell_repeat_count row) of
             None \<Rightarrow> Inl RuntimeError_csv
           | Some rc \<Rightarrow>
               read_rows L rows
                 (acc @ [\<lparr>private_key = pk, base64_data = cell_data row, repeat_count = rc\<rparr>])))"

definition read_data_from_csv :: "library \<Rightarrow> string \<Rightarrow> py_error + account_task list" where
  "read_data_from_csv L file_path =
     (case lib_read_csv L file_path of
        None \<Rightarrow> Inl RuntimeError_csv
      | Some rows \<Rightarrow> read_rows L rows [])"

text \<open>
  The main block up to the thread pool: either the process exits with a status, or the
  listed tasks are handed to the executor, in order.
\<close>

datatype main_outcome = Exit nat | Submitted "account_task list"

definition main_load :: "library \<Rightarrow> string \<Rightarrow> main_outcome" where
  "main_load L csv_file =
     (case read_data_from_csv L csv_file of
        Inl e \<Rightarrow> Exit 1
      | Inr transaction_data_list \<Rightarrow> Submitted transaction_data_list)"

section \<open>Predicates on events and rows\<close>

definition is_send :: "event \<Rightarrow> bool" where
  "is_send e = (case e of RpcSend raw \<Rightarrow> True | _ \<Rightarrow> False)"

definition is_start :: "event \<Rightarrow> bool" where
  "is_start e = (case e of LogStart i \<Rightarrow> True | _ \<Rightarrow> False)"

text \<open>
  The loader's own checks: one of the two conversions of lines 120 and 122 raises on the
  row; the file cannot be read or holds such a row.
\<close>

definition row_conversion_raises :: "library \<Rightarrow> csv_row \<Rightarrow> bool" where
  "row_conversion_raises L row =
     (lib_literal_eval L (cell_private_key row) = None \<or> lib_int L (cell_repeat_count row) = None)"

definition load_raises :: "library \<Rightarrow> string \<Rightarrow> bool" where
  "load_raises L file_path =
     (case lib_read_csv L file_path of
        None \<Rightarrow> True
      | Some rows \<Rightarrow> list_ex (row_conversion_raises L) rows)"

text \<open>
  The row format in the specification's words (section 6, external interfaces):
  \<^verbatim>\<open>private_key\<close> is the textual representation of an integer array,
  \<^verbatim>\<open>data\<close> is a base64-encoded transaction template, \<^verbatim>\<open>repeat_count\<close> is a
  positive integer. A dataset is malformed, in these words, when it cannot be read or
  some row is not of this format.
\<close>

definition spec_row_wellformed :: "library \<Rightarrow> csv_row \<Rightarrow> bool" where
  "spec_row_wellformed L row =
     ((case lib_literal_eval L (cell_private_key row) of
         Some (IntList xs) \<Rightarrow> True
       | _ \<Rightarrow> False) \<and>
      lib_decode L (cell_data row) \<noteq> None \<and>
      (case lib_int L (cell_repeat_count row) of
         Some n \<Rightarrow> 0 < n
       | None \<Rightarrow> False))"

definition spec_dataset_malformed :: "library \<Rightarrow> string \<Rightarrow> bool" where
  "spec_dataset_malformed L file_path =
     (case lib_read_csv L file_path of
        None \<Rightarrow> True
      | Some rows \<Rightarrow> list_ex (\<lambda>row. \<not> spec_row_wellformed L row) rows)"

text \<open>The RPC node and the random generator answer the same in both worlds.\<close>

definition same_scripts :: "world \<Rightarrow> world \<Rightarrow> bool" where
  "same_scripts w w' =
     (blockhash_script w' = blockhash_script w \<and> send_script w' = send_script w \<and>
      status_script w' = status_script w \<and> randint_script w' = randint_script w)"

text \<open>From every point on, some later status query reports success.\<close>

definition eventually_confirms :: "world \<Rightarrow> bool" where
  "eventually_confirms w = (\<forall>n. \<exists>m\<ge>n. status_script w m = MetaOk)"

section \<open>Concrete inputs\<close>

definition tx_demo :: tx_json where
  "tx_demo =
     \<lparr>signatures = [''sig''],
      message = \<lparr>header = (1, 0, 1), account_keys = [''payer'', ''program''],
                 recent_blockhash = ''old'',
                 instructions =
                   [\<lparr>program_id_index = 1, accounts = [0], data = [1, 2]\<rparr>,
                    \<lparr>program_id_index = 1, accounts = [0], data = [3, 7]\<rparr>]\<rparr>\<rparr>"

definition tx_one_instruction :: tx_json where
  "tx_one_instruction =
     \<lparr>signatures = [''sig''],
      message = \<lparr>header = (1, 0, 1), account_keys = [''payer'', ''program''],
                 recent_blockhash = ''old'',
                 instructions = [\<lparr>program_id_index = 1, accounts = [0], data = [1, 2]\<rparr>]\<rparr>\<rparr>"

definition key_demo :: py_literal where
  "key_demo = IntList [1, 2, 3, 4]"

definition lib_demo :: library where
  "lib_demo =
     \<lparr>lib_keypair_ok = (\<lambda>bs. length bs = 4),
      lib_decode = (\<lambda>s. if s = ''template'' then Some tx_demo
                         else if s = ''short'' then Some tx_one_instruction else None),
      lib_from_json_ok = (\<lambda>t. True),
      lib_sign = (\<lambda>kp t. Some (t\<lparr>signatures := [''signed'']\<rparr>)),
      lib_serialize = (\<lambda>t. Some (concat (map data (instructions (message t))))),
      lib_read_csv = (\<lambda>f. if f = ''transactions.csv''
                           then Some [\<lparr>cell_private_key = ''[1, 2, 3, 4]'', cell_data = ''template'',
                                       cell_repeat_count = ''3''\<rparr>,
                                      \<lparr>cell_private_key = ''[1, 2, 3, 4]'', cell_data = ''template'',
                                       cell_repeat_count = ''three''\<rparr>]
                           else if f = ''odd_rows.csv''
                           then Some [\<lparr>cell_private_key = ''5'', cell_data = ''not base64!'',
                                       cell_repeat_count = ''-3''\<rparr>,
                                      \<lparr>cell_private_key = ''[1, 2, 3, 4]'', cell_data = ''not base64!'',
                                       cell_repeat_count = ''1''\<rparr>]
                           else None),
      lib_literal_eval = (\<lambda>s. if s = ''[1, 2, 3, 4]'' then Some (IntList [1, 2, 3, 4])
                               else if s = ''5'' then Some (OtherLiteral (Some [0, 0, 0, 0, 0]))
                               else None),
      lib_int = (\<lambda>s. if s = ''3'' then Some 3 else if s = ''1'' then Some 1
                      else if s = ''0'' then Some 0 else if s = ''-3'' then Some (- 3)
                      else None)\<rparr>"

definition inputs_demo :: inputs where
  "inputs_demo = \<lparr>in_base64_data = ''template'', in_private_key = key_demo\<rparr>"

definition inputs_short :: inputs where
  "inputs_short = \<lparr>in_base64_data = ''short'', in_private_key = key_demo\<rparr>"

definition task_demo :: "int \<Rightarrow> account_task" where
  "task_demo n = \<lparr>private_key = key_demo, base64_data = ''template'', repeat_count = n\<rparr>"

definition task_bad_key :: account_task where
  "task_bad_key = \<lparr>private_key = IntList [256], base64_data = ''template'', repeat_count = 0\<rparr>"

definition task_odd_data :: account_task where
  "task_odd_data = \<lparr>private_key = key_demo, base64_data = ''not base64!'', repeat_count = 1\<rparr>"

text \<open>A fresh world with the given answers; the random generator always draws 9.\<close>

definition world_init ::
  "(nat \<Rightarrow> string option) \<Rightarrow> (nat \<Rightarrow> string option) \<Rightarrow> (nat \<Rightarrow> tx_status) \<Rightarrow> world" where
  "world_init bs ss sts =
     \<lparr>blockhash_script = bs, send_script = ss, status_script = sts,
      randint_script = (\<lambda>k. 9),
      n_blockhash = 0, n_send = 0, n_status = 0, n_randint = 0, trace = []\<rparr>"

definition blockhash_always :: "nat \<Rightarrow> string option" where
  "blockhash_always k = Some ''hash''"

definition blockhash_never :: "nat \<Rightarrow> string option" where
  "blockhash_never k = None"

definition blockhash_third :: "nat \<Rightarrow> string option" where
  "blockhash_third k = (if k < 2 then None else Some ''hash'')"

definition send_always :: "nat \<Rightarrow> string option" where
  "send_always k = Some ''sig''"


definition status_ok :: "nat \<Rightarrow> tx_status" where
  "status_ok k = MetaOk"

definition status_err_then_ok :: "nat \<Rightarrow> tx_status" where
  "status_err_then_ok k = (if k = 0 then MetaErr ''err'' else MetaOk)"

definition status_err_forever :: "nat \<Rightarrow> tx_status" where
  "status_err_forever k = MetaErr ''err''"


definition status_third :: "nat \<Rightarrow> tx_status" where
  "status_third k = (if k < 2 then ValueNone else MetaOk)"

section \<open>The mutation: what line 53 writes\<close>

lemma data_update_eq: "(x\<lparr>data := d'\<rparr> = x) = (d' = data x)"
proof
  assume "x\<lparr>data := d'\<rparr> = x"
  then have "data (x\<lparr>data := d'\<rparr>) = data x" by (rule arg_cong)
  then show "d' = data x" by simp
qed simp

lemma instructions_update_eq: "(m\<lparr>instructions := is'\<rparr> = m) = (is' = instructions m)"
proof
  assume "m\<lparr>instructions := is'\<rparr> = m"
  then have "instructions (m\<lparr>instructions := is'\<rparr>) = instructions m" by (rule arg_cong)
  then show "is' = instructions m" by simp
qed simp

lemma message_update_eq: "(t\<lparr>message := m'\<rparr> = t) = (m' = message t)"
proof
  assume "t\<lparr>message := m'\<rparr> = t"
  then have "message (t\<lparr>message := m'\<rparr>) = message t" by (rule arg_cong)
  then show "m' = message t" by simp
qed simp

lemma last_update_eq:
  assumes "d \<noteq> []"
  shows "(d[length d - 1 := r] = d) = (r = last d)"
proof
  assume h: "d[length d - 1 := r] = d"
  have "d[length d - 1 := r] ! (length d - 1) = r" using assms by simp
  with h have "d ! (length d - 1) = r" by simp
  then show "r = last d" using assms by (simp add: last_conv_nth)
next
  assume "r = last d"
  then show "d[length d - 1 := r] = d" using assms by (simp add: last_conv_nth)
qed

lemma nth_update_eq:
  assumes "i < length xs"
  shows "(xs[i := y] = xs) = (y = xs ! i)"
proof
  assume h: "xs[i := y] = xs"
  have "xs[i := y] ! i = y" using assms by simp
  with h show "y = xs ! i" by simp
next
  assume "y = xs ! i"
  then show "xs[i := y] = xs" by simp
qed

lemma set_last_data_byte_Some:
  assumes "2 \<le> length (instructions (message tx))"
    and "data (instructions (message tx) ! 1) \<noteq> []"
  shows "set_last_data_byte r tx =
     Some (tx\<lparr>message := (message tx)\<lparr>instructions :=
        (instructions (message tx))[1 := (instructions (message tx) ! 1)
           \<lparr>data := (data (instructions (message tx) ! 1))
                [length (data (instructions (message tx) ! 1)) - 1 := r]\<rparr>]\<rparr>\<rparr>)"
  using assms by (simp add: set_last_data_byte_def Let_def)

lemma set_last_data_byte_None:
  assumes "length (instructions (message tx)) < 2 \<or> data (instructions (message tx) ! 1) = []"
  shows "set_last_data_byte r tx = None"
  using assms by (auto simp add: set_last_data_byte_def Let_def)

text \<open>
  Claim C2, as stated: for a decoded template with at least two instructions and
  non-empty data on instruction 1, the mutation always changes exactly one byte. It does
  not: \<^verbatim>\<open>random.randint(0, 255)\<close> may draw the value the last byte already has. The
  template \<open>tx_demo\<close> fulfils the hypotheses, its instruction 1 ends in 7, and with the
  draw 7 the mutated transaction is the original one: no byte has changed.
\<close>

theorem mutate_same_byte_counterexample:
  "2 \<le> length (instructions (message tx_demo)) \<and>
   data (instructions (message tx_demo) ! 1) \<noteq> [] \<and>
   set_last_data_byte 7 tx_demo = Some tx_demo"
  by (simp add: tx_demo_def set_last_data_byte_def)

text \<open>
  Claim C2, amended: for a decoded template with at least two instructions and non-empty
  data on instruction 1, the mutation succeeds and overwrites exactly one byte position,
  the last byte of instruction 1's data, with the drawn value. Signatures, header, account
  keys, block hash, every other instruction, the other fields of instruction 1, the length
  of its data and every other byte of its data are as in the original decode. The result
  differs from the original, in that one byte, exactly when the drawn value differs from
  the byte it replaces.
\<close>

theorem mutate_overwrites_last_byte:
  assumes "2 \<le> length (instructions (message tx))"
    and "data (instructions (message tx) ! 1) \<noteq> []"
  shows "\<exists>tx'. set_last_data_byte r tx = Some tx' \<and>
     signatures tx' = signatures tx \<and>
     header (message tx') = header (message tx) \<and>
     account_keys (message tx') = account_keys (message tx) \<and>
     recent_blockhash (message tx') = recent_blockhash (message tx) \<and>
     length (instructions (message tx')) = length (instructions (message tx)) \<and>
     (\<forall>i < length (instructions (message tx)). i \<noteq> 1 \<longrightarrow>
        instructions (message tx') ! i = instructions (message tx) ! i) \<and>
     program_id_index (instructions (message tx') ! 1) =
       program_id_index (instructions (message tx) ! 1) \<and>
     accounts (instructions (message tx') ! 1) = accounts (instructions (message tx) ! 1) \<and>
     length (data (instructions (message tx') ! 1)) =
       length (data (instructions (message tx) ! 1)) \<and>
     (\<forall>j < length (data (instructions (message tx) ! 1)).
        j \<noteq> length (data (instructions (message tx) ! 1)) - 1 \<longrightarrow>
        data (instructions (message tx') ! 1) ! j = data (instructions (message tx) ! 1) ! j) \<and>
     last (data (instructions (message tx') ! 1)) = r \<and>
     (tx' = tx \<longleftrightarrow> r = last (data (instructions (message tx) ! 1)))"
proof -
  let ?ins = "instructions (message tx)"
  let ?d = "data (?ins ! 1)"
  have l: "1 < length ?ins" using assms(1) by simp
  have d: "length ?d - 1 < length ?d" using assms(2) by (cases ?d) auto
  have lst: "last (?d[length ?d - 1 := r]) = r"
    using assms(2) d by (simp add: last_conv_nth)
  have eq: "(tx\<lparr>message := (message tx)\<lparr>instructions :=
        ?ins[1 := (?ins ! 1)\<lparr>data := ?d[length ?d - 1 := r]\<rparr>]\<rparr>\<rparr> = tx) = (r = last ?d)"
    by (simp only: message_update_eq instructions_update_eq nth_update_eq[OF l]
        data_update_eq last_update_eq[OF assms(2)])
  show ?thesis
    unfolding set_last_data_byte_Some[OF assms]
    using l d lst eq by (simp add: nth_list_update)
qed

theorem mutate_overwrites_last_byte_witness:
  "2 \<le> length (instructions (message tx_demo)) \<and>
   data (instructions (message tx_demo) ! 1) \<noteq> [] \<and>
   (\<exists>tx'. set_last_data_byte 9 tx_demo = Some tx' \<and>
      data (instructions (message tx') ! 1) = [3, 9] \<and>
      instructions (message tx') ! 0 = instructions (message tx_demo) ! 0 \<and>
      tx' \<noteq> tx_demo)"
proof -
  have h1: "2 \<le> length (instructions (message tx_demo))" by (simp add: tx_demo_def)
  have h2: "data (instructions (message tx_demo) ! 1) \<noteq> []" by (simp add: tx_demo_def)
  from mutate_overwrites_last_byte[OF h1 h2, of 9]
  obtain tx' where t: "set_last_data_byte 9 tx_demo = Some tx'"
    and ne: "(tx' = tx_demo) = ((9::byte) = last (data (instructions (message tx_demo) ! 1)))"
    by blast
  have v: "tx' = tx_demo\<lparr>message := (message tx_demo)\<lparr>instructions :=
     [\<lparr>program_id_index = 1, accounts = [0], data = [1, 2]\<rparr>,
      \<lparr>program_id_index = 1, accounts = [0], data = [3, 9]\<rparr>]\<rparr>\<rparr>"
    using t by (simp add: tx_demo_def set_last_data_byte_def)
  have "tx' \<noteq> tx_demo" using ne by (simp add: tx_demo_def)
  then show ?thesis using h1 h2 t v by (simp add: tx_demo_def)
qed

section \<open>Loading the dataset\<close>

lemma read_rows_raises:
  "list_ex (row_conversion_raises L) rows \<Longrightarrow> read_rows L rows acc = Inl RuntimeError_csv"
proof (induction rows arbitrary: acc)
  case Nil
  then show ?case by simp
next
  case (Cons row rows)
  show ?case
  proof (cases "row_conversion_raises L row")
    case True
    then show ?thesis by (auto simp add: row_conversion_raises_def split: option.splits)
  next
    case False
    then obtain pk rc where
      pk: "lib_literal_eval L (cell_private_key row) = Some pk"
      and rc: "lib_int L (cell_repeat_count row) = Some rc"
      by (auto simp add: row_conversion_raises_def)
    from False have "list_ex (row_conversion_raises L) rows" using Cons.prems by simp
    from Cons.IH[OF this] show ?thesis by (simp add: pk rc)
  qed
qed

lemma read_rows_accepts:
  "\<not> list_ex (row_conversion_raises L) rows \<Longrightarrow>
   \<exists>tasks. read_rows L rows acc = Inr (acc @ tasks) \<and> length tasks = length rows"
proof (induction rows arbitrary: acc)
  case Nil
  then show ?case by simp
next
  case (Cons row rows)
  from Cons.prems obtain pk rc where
    pk: "lib_literal_eval L (cell_private_key row) = Some pk"
    and rc: "lib_int L (cell_repeat_count row) = Some rc"
    by (auto simp add: row_conversion_raises_def)
  from Cons.prems have "\<not> list_ex (row_conversion_raises L) rows" by simp
  from Cons.IH[OF this, of "acc @ [\<lparr>private_key = pk, base64_data = cell_data row, repeat_count = rc\<rparr>]"]
  obtain tasks where
    "read_rows L rows (acc @ [\<lparr>private_key = pk, base64_data = cell_data row, repeat_count = rc\<rparr>])
       = Inr ((acc @ [\<lparr>private_key = pk, base64_data = cell_data row, repeat_count = rc\<rparr>]) @ tasks)"
    and "length tasks = length rows" by blast
  then show ?case using pk rc
    by (intro exI[of _ "\<lparr>private_key = pk, base64_data = cell_data row, repeat_count = rc\<rparr> # tasks"]) simp
qed

text \<open>
  Claim C7, as stated: if any row of the input dataset is malformed, the entire load
  fails before any scheduling or submission work starts. It does not: lines 120 to 123
  are the whole validation, and they reject a row only when \<^verbatim>\<open>ast.literal_eval\<close>
  or \<^verbatim>\<open>int\<close> raises. The file \<open>odd_rows.csv\<close> holds a row whose key cell is
  \<^verbatim>\<open>5\<close>, whose data is not base64 and whose repeat count is -3, and a row with a
  proper key, the same data and the repeat count 1. Both rows are malformed in the
  specification's words, yet the load returns both tasks and the main block hands them to
  the executor; the worker of the second task fetches a block hash from the node before
  the decoding of line 45 fails.
\<close>

theorem load_accepts_malformed_rows_counterexample:
  "spec_dataset_malformed lib_demo ''odd_rows.csv'' \<and>
   read_data_from_csv lib_demo ''odd_rows.csv'' =
     Inr [\<lparr>private_key = OtherLiteral (Some [0, 0, 0, 0, 0]), base64_data = ''not base64!'',
           repeat_count = - 3\<rparr>,
          task_odd_data] \<and>
   main_load lib_demo ''odd_rows.csv'' =
     Submitted [\<lparr>private_key = OtherLiteral (Some [0, 0, 0, 0, 0]), base64_data = ''not base64!'',
                 repeat_count = - 3\<rparr>,
                task_odd_data] \<and>
   process_wallet lib_demo task_odd_data (world_init blockhash_always send_always status_ok) =
     Some (Inr (),
           (world_init blockhash_always send_always status_ok)
             \<lparr>n_blockhash := 1,
              trace := [LogStart 0, RpcGetBlockhash, LogError 0 ValueError_deserialize]\<rparr>)"
proof -
  let ?w = "world_init blockhash_always send_always status_ok"
  let ?inp = "\<lparr>in_base64_data = ''not base64!'', in_private_key = key_demo\<rparr>"
  have a: "spec_dataset_malformed lib_demo ''odd_rows.csv''"
    by (simp add: spec_dataset_malformed_def spec_row_wellformed_def lib_demo_def)
  have b: "read_data_from_csv lib_demo ''odd_rows.csv'' =
     Inr [\<lparr>private_key = OtherLiteral (Some [0, 0, 0, 0, 0]), base64_data = ''not base64!'',
           repeat_count = - 3\<rparr>,
          task_odd_data]"
    by (simp add: read_data_from_csv_def lib_demo_def task_odd_data_def key_demo_def)
  have c: "main_load lib_demo ''odd_rows.csv'' =
     Submitted [\<lparr>private_key = OtherLiteral (Some [0, 0, 0, 0, 0]), base64_data = ''not base64!'',
                 repeat_count = - 3\<rparr>,
                task_odd_data]"
    unfolding main_load_def b by simp
  have k: "keypair_from_bytes lib_demo key_demo = Inr [1, 2, 3, 4]"
    by (simp add: keypair_from_bytes_def py_bytes_def key_demo_def lib_demo_def)
  have g: "get_latest_blockhash_with_retry (emit (LogStart 0) ?w) =
     (Some ''hash'', ?w\<lparr>n_blockhash := 1, trace := [LogStart 0, RpcGetBlockhash]\<rparr>)"
    unfolding get_latest_blockhash_with_retry_def
    by (subst blockhash_attempts.simps)
       (simp add: rpc_get_latest_blockhash_def emit_def world_init_def blockhash_always_def)
  have dec: "lib_decode lib_demo ''not base64!'' = None"
    by (simp add: lib_demo_def)
  have s: "send_modified_transaction lib_demo ?inp (emit (LogStart 0) ?w) =
     (Inl ValueError_deserialize, ?inp,
      ?w\<lparr>n_blockhash := 1, trace := [LogStart 0, RpcGetBlockhash]\<rparr>)"
    unfolding send_modified_transaction_def g by (simp add: k dec)
  have i: "iteration lib_demo 0 (?inp, ?w) =
     Some (?inp, ?w\<lparr>n_blockhash := 1,
                       trace := [LogStart 0, RpcGetBlockhash, LogError 0 ValueError_deserialize]\<rparr>)"
    unfolding iteration_def fst_conv snd_conv s by (simp add: emit_def)
  have n: "[0..<nat (repeat_count task_odd_data)] = [0]"
    by (simp add: task_odd_data_def)
  have t: "\<lparr>in_base64_data = base64_data task_odd_data, in_private_key = private_key task_odd_data\<rparr>
     = ?inp"
    by (simp add: task_odd_data_def)
  have kt: "keypair_from_bytes lib_demo (private_key task_odd_data) = Inr [1, 2, 3, 4]"
    using k by (simp add: task_odd_data_def)
  have d: "process_wallet lib_demo task_odd_data ?w =
     Some (Inr (), ?w\<lparr>n_blockhash := 1,
              trace := [LogStart 0, RpcGetBlockhash, LogError 0 ValueError_deserialize]\<rparr>)"
    unfolding process_wallet_def kt n t
    by (simp only: replay_loop.simps i option.case sum.case snd_conv)
  from a b c d show ?thesis by blast
qed

text \<open>
  Claim C7, amended: if the dataset cannot be read, or on any row
  \<^verbatim>\<open>ast.literal_eval\<close> raises on the key cell or \<^verbatim>\<open>int\<close> raises on
  the repeat count, the entire load fails with the fatal load error
  (\<open>RuntimeError_csv\<close>, line 126) before any scheduling or submission work starts, the
  process exits with status 1, and no list of account tasks, partial or not, is produced.
  In every other case the load returns one task per row and the main block hands all of
  them to the executor, whatever else is wrong with a row.
\<close>

theorem load_fails_iff_conversion_raises:
  "(load_raises L file_path \<longrightarrow>
      read_data_from_csv L file_path = Inl RuntimeError_csv \<and>
      main_load L file_path = Exit 1) \<and>
   (\<not> load_raises L file_path \<longrightarrow>
      (\<exists>rows tasks. lib_read_csv L file_path = Some rows \<and>
         read_data_from_csv L file_path = Inr tasks \<and> length tasks = length rows \<and>
         main_load L file_path = Submitted tasks))"
proof (intro conjI impI)
  assume r: "load_raises L file_path"
  show e: "read_data_from_csv L file_path = Inl RuntimeError_csv"
    using r
    by (auto simp add: load_raises_def read_data_from_csv_def read_rows_raises
        split: option.splits)
  show "main_load L file_path = Exit 1" unfolding main_load_def e by simp
next
  assume n: "\<not> load_raises L file_path"
  then obtain rows where rows: "lib_read_csv L file_path = Some rows"
    and ok: "\<not> list_ex (row_conversion_raises L) rows"
    by (auto simp add: load_raises_def split: option.splits)
  from read_rows_accepts[OF ok, of "[]"]
  obtain tasks where t: "read_rows L rows [] = Inr tasks" and l: "length tasks = length rows"
    by auto
  have rd: "read_data_from_csv L file_path = Inr tasks"
    by (simp add: read_data_from_csv_def rows t)
  have "main_load L file_path = Submitted tasks" unfolding main_load_def rd by simp
  with rows rd l show "\<exists>rows tasks. lib_read_csv L file_path = Some rows \<and>
         read_data_from_csv L file_path = Inr tasks \<and> length tasks = length rows \<and>
         main_load L file_path = Submitted tasks"
    by blast
qed

theorem load_fails_iff_conversion_raises_witness:
  "load_raises lib_demo ''transactions.csv'' \<and>
   read_data_from_csv lib_demo ''transactions.csv'' = Inl RuntimeError_csv \<and>
   main_load lib_demo ''transactions.csv'' = Exit 1 \<and>
   \<not> load_raises lib_demo ''odd_rows.csv'' \<and>
   (\<exists>tasks. main_load lib_demo ''odd_rows.csv'' = Submitted tasks \<and> length tasks = 2)"
proof -
  have h: "load_raises lib_demo ''transactions.csv''"
    by (simp add: load_raises_def lib_demo_def row_conversion_raises_def)
  have g: "\<not> load_raises lib_demo ''odd_rows.csv''"
    by (simp add: load_raises_def lib_demo_def row_conversion_raises_def)
  have r: "lib_read_csv lib_demo ''odd_rows.csv'' =
     Some [\<lparr>cell_private_key = ''5'', cell_data = ''not base64!'', cell_repeat_count = ''-3''\<rparr>,
           \<lparr>cell_private_key = ''[1, 2, 3, 4]'', cell_data = ''not base64!'',
            cell_repeat_count = ''1''\<rparr>]"
    by (simp add: lib_demo_def)
  from load_fails_iff_conversion_raises[of lib_demo "''transactions.csv''"] h
  have A: "read_data_from_csv lib_demo ''transactions.csv'' = Inl RuntimeError_csv"
    "main_load lib_demo ''transactions.csv'' = Exit 1" by blast+
  from load_fails_iff_conversion_raises[of lib_demo "''odd_rows.csv''"] g
  obtain rows tasks where "lib_read_csv lib_demo ''odd_rows.csv'' = Some rows"
    and "length tasks = length rows" and m: "main_load lib_demo ''odd_rows.csv'' = Submitted tasks"
    by blast
  with r have "length tasks = 2" by simp
  with m have B: "\<exists>tasks. main_load lib_demo ''odd_rows.csv'' = Submitted tasks \<and> length tasks = 2"
    by blast
  from h g A B show ?thesis by blast
qed

section \<open>Frame of the block hash loop and of one submission\<close>

lemma same_scripts_refl: "same_scripts w w"
  by (simp add: same_scripts_def)

lemma same_scripts_trans: "same_scripts a b \<Longrightarrow> same_scripts b c \<Longrightarrow> same_scripts a c"
  by (simp add: same_scripts_def)

lemma same_scripts_emit: "same_scripts w (emit e w)"
  by (simp add: same_scripts_def emit_def)

lemma trace_emit: "trace (emit e w) = trace w @ [e]"
  by (simp add: emit_def)

lemma blockhash_attempts_success:
  assumes "\<forall>j<f. blockhash_script w (n_blockhash w + j) = None"
    and "blockhash_script w (n_blockhash w + f) = Some h"
    and "attempt + f \<le> retries"
  shows "blockhash_attempts attempt retries delay w =
     (Some h, w\<lparr>n_blockhash := n_blockhash w + f + 1,
                trace := trace w @ concat (replicate f [RpcGetBlockhash, Sleep delay]) @ [RpcGetBlockhash]\<rparr>)"
  using assms
proof (induction f arbitrary: attempt w)
  case 0
  then show ?case
    by (subst blockhash_attempts.simps) (simp add: rpc_get_latest_blockhash_def emit_def)
next
  case (Suc f)
  let ?w = "emit (Sleep delay) (emit RpcGetBlockhash (w\<lparr>n_blockhash := Suc (n_blockhash w)\<rparr>))"
  have first: "blockhash_script w (n_blockhash w) = None"
    using Suc.prems(1) by (metis add.right_neutral zero_less_Suc)
  have a: "\<forall>j<f. blockhash_script ?w (n_blockhash ?w + j) = None"
  proof (intro allI impI)
    fix j assume "j < f"
    then have "Suc j < Suc f" by simp
    with Suc.prems(1) have "blockhash_script w (n_blockhash w + Suc j) = None" by blast
    then show "blockhash_script ?w (n_blockhash ?w + j) = None" by (simp add: emit_def)
  qed
  have b: "blockhash_script ?w (n_blockhash ?w + f) = Some h"
    using Suc.prems(2) by (simp add: emit_def)
  have c: "Suc attempt + f \<le> retries" using Suc.prems(3) by simp
  have lt: "attempt < retries" "\<not> retries < attempt" using Suc.prems(3) by simp_all
  have step: "blockhash_attempts attempt retries delay w = blockhash_attempts (Suc attempt) retries delay ?w"
    by (subst blockhash_attempts.simps) (simp add: rpc_get_latest_blockhash_def first lt)
  show ?case
    unfolding step Suc.IH[OF a b c] by (simp add: emit_def)
qed

lemma blockhash_attempts_exhausted:
  assumes "\<forall>j\<le>f. blockhash_script w (n_blockhash w + j) = None"
    and "attempt + f = retries"
  shows "blockhash_attempts attempt retries delay w =
     (None, w\<lparr>n_blockhash := n_blockhash w + f + 1,
             trace := trace w @ concat (replicate f [RpcGetBlockhash, Sleep delay]) @ [RpcGetBlockhash]\<rparr>)"
  using assms
proof (induction f arbitrary: attempt w)
  case 0
  then show ?case
    by (subst blockhash_attempts.simps) (simp add: rpc_get_latest_blockhash_def emit_def)
next
  case (Suc f)
  let ?w = "emit (Sleep delay) (emit RpcGetBlockhash (w\<lparr>n_blockhash := Suc (n_blockhash w)\<rparr>))"
  have first: "blockhash_script w (n_blockhash w) = None"
    using Suc.prems(1) by (metis add.right_neutral le0)
  have a: "\<forall>j\<le>f. blockhash_script ?w (n_blockhash ?w + j) = None"
  proof (intro allI impI)
    fix j assume "j \<le> f"
    then have "Suc j \<le> Suc f" by simp
    with Suc.prems(1) have "blockhash_script w (n_blockhash w + Suc j) = None" by blast
    then show "blockhash_script ?w (n_blockhash ?w + j) = None" by (simp add: emit_def)
  qed
  have c: "Suc attempt + f = retries" using Suc.prems(2) by simp
  have lt: "attempt < retries" "\<not> retries < attempt" using Suc.prems(2) by simp_all
  have step: "blockhash_attempts attempt retries delay w = blockhash_attempts (Suc attempt) retries delay ?w"
    by (subst blockhash_attempts.simps) (simp add: rpc_get_latest_blockhash_def first lt)
  show ?case
    unfolding step Suc.IH[OF a c] by (simp add: emit_def)
qed

lemma blockhash_attempts_frame:
  "blockhash_attempts a r d w = (res, w') \<Longrightarrow>
   same_scripts w w' \<and>
   n_send w' = n_send w \<and> n_status w' = n_status w \<and> n_randint w' = n_randint w \<and>
   filter is_send (trace w') = filter is_send (trace w) \<and>
   filter is_start (trace w') = filter is_start (trace w)"
proof (induction a r d w arbitrary: res w' rule: blockhash_attempts.induct)
  case (1 attempt retries delay w)
  let ?w1 = "emit RpcGetBlockhash (w\<lparr>n_blockhash := Suc (n_blockhash w)\<rparr>)"
  have unf: "(if retries < attempt then (None, w)
      else (case rpc_get_latest_blockhash w of
              (Some h, w') \<Rightarrow> (Some h, w')
            | (None, w') \<Rightarrow>
                if attempt < retries
                then blockhash_attempts (Suc attempt) retries delay (emit (Sleep delay) w')
                else (None, w'))) = (res, w')"
    using "1.prems" by (subst (asm) blockhash_attempts.simps)
  show ?case
  proof (cases "\<not> retries < attempt \<and> blockhash_script w (n_blockhash w) = None \<and> attempt < retries")
    case True
    then have rec: "blockhash_attempts (Suc attempt) retries delay (emit (Sleep delay) ?w1) = (res, w')"
      using unf by (simp add: rpc_get_latest_blockhash_def)
    have "rpc_get_latest_blockhash w = (None, ?w1)"
      using True by (simp add: rpc_get_latest_blockhash_def)
    from "1.IH"[OF _ this[symmetric] refl _ rec] True
    show ?thesis by (simp add: emit_def same_scripts_def is_send_def is_start_def)
  next
    case False
    then show ?thesis using unf
      by (auto simp add: rpc_get_latest_blockhash_def emit_def same_scripts_def
          is_send_def is_start_def split: if_splits option.splits)
  qed
qed

lemma check_transaction_status_eq:
  "check_transaction_status sg w =
     (status_script w (n_status w) = MetaOk,
      emit (RpcGetTransaction sg) (w\<lparr>n_status := Suc (n_status w)\<rparr>))"
  by (simp add: check_transaction_status_def rpc_get_transaction_def split: tx_status.splits)

lemma confirmation_loop_step:
  "status_script w (n_status w) \<noteq> MetaOk \<Longrightarrow>
   confirmation_loop sg w =
     confirmation_loop sg (emit (Sleep 5) (emit (RpcGetTransaction sg) (w\<lparr>n_status := Suc (n_status w)\<rparr>)))"
  by (subst confirmation_loop.simps) (simp add: check_transaction_status_eq)

lemma confirmation_loop_done:
  "status_script w (n_status w) = MetaOk \<Longrightarrow>
   confirmation_loop sg w =
     Some (emit (SleepUniform 2 5) (emit (RpcGetTransaction sg) (w\<lparr>n_status := Suc (n_status w)\<rparr>)))"
  by (subst confirmation_loop.simps) (simp add: check_transaction_status_eq)

lemma confirmation_loop_success:
  assumes "\<forall>j<k. status_script w (n_status w + j) \<noteq> MetaOk"
    and "status_script w (n_status w + k) = MetaOk"
  shows "confirmation_loop sg w =
     Some (w\<lparr>n_status := n_status w + k + 1,
             trace := trace w @ concat (replicate k [RpcGetTransaction sg, Sleep 5]) @
                      [RpcGetTransaction sg, SleepUniform 2 5]\<rparr>)"
  using assms
proof (induction k arbitrary: w)
  case 0
  then show ?case by (simp add: confirmation_loop_done emit_def)
next
  case (Suc k)
  let ?w = "emit (Sleep 5) (emit (RpcGetTransaction sg) (w\<lparr>n_status := Suc (n_status w)\<rparr>))"
  have first: "status_script w (n_status w) \<noteq> MetaOk"
    using Suc.prems(1) by (metis add.right_neutral zero_less_Suc)
  have a: "\<forall>j<k. status_script ?w (n_status ?w + j) \<noteq> MetaOk"
  proof (intro allI impI)
    fix j assume "j < k"
    then have "Suc j < Suc k" by simp
    with Suc.prems(1) have "status_script w (n_status w + Suc j) \<noteq> MetaOk" by blast
    then show "status_script ?w (n_status ?w + j) \<noteq> MetaOk" by (simp add: emit_def)
  qed
  have b: "status_script ?w (n_status ?w + k) = MetaOk"
    using Suc.prems(2) by (simp add: emit_def)
  show ?case
    unfolding confirmation_loop_step[OF first] Suc.IH[OF a b] by (simp add: emit_def)
qed

lemma confirmation_loop_Some_imp:
  assumes "confirmation_loop sg w = Some y"
  shows "\<exists>j. status_script w (n_status w + j) = MetaOk"
proof (rule confirmation_loop.raw_induct
    [where P = "\<lambda>sg w y. \<exists>j. status_script w (n_status w + j) = MetaOk", OF _ assms])
  fix cl :: "string \<Rightarrow> world \<Rightarrow> world option" and sg w y
  assume ih: "\<And>sg w y. cl sg w = Some y \<Longrightarrow> \<exists>j. status_script w (n_status w + j) = MetaOk"
    and body: "(case check_transaction_status sg w of
      (confirmed, w') \<Rightarrow>
        if confirmed then Some (emit (SleepUniform 2 5) w')
        else cl sg (emit (Sleep 5) w')) = Some y"
  show "\<exists>j. status_script w (n_status w + j) = MetaOk"
  proof (cases "status_script w (n_status w) = MetaOk")
    case True
    then have "status_script w (n_status w + 0) = MetaOk" by simp
    then show ?thesis by blast
  next
    case False
    let ?w = "emit (Sleep 5) (emit (RpcGetTransaction sg) (w\<lparr>n_status := Suc (n_status w)\<rparr>))"
    from body False have "cl sg ?w = Some y"
      by (simp add: check_transaction_status_eq)
    from ih[OF this] obtain j where "status_script ?w (n_status ?w + j) = MetaOk" by blast
    then have "status_script w (n_status w + Suc j) = MetaOk" by (simp add: emit_def)
    then show ?thesis by blast
  qed
qed

lemma confirmation_loop_diverges:
  "\<forall>j. status_script w (n_status w + j) \<noteq> MetaOk \<Longrightarrow> confirmation_loop sg w = None"
  using confirmation_loop_Some_imp[of sg w] by (cases "confirmation_loop sg w") auto

lemma confirmation_loop_eventually:
  assumes "\<forall>n. \<exists>m\<ge>n. status_script w m = MetaOk"
  shows "\<exists>w'. confirmation_loop sg w = Some w' \<and> same_scripts w w' \<and>
           n_send w' = n_send w \<and>
           filter is_send (trace w') = filter is_send (trace w) \<and>
           filter is_start (trace w') = filter is_start (trace w)"
proof -
  from assms obtain m where m: "m \<ge> n_status w" "status_script w m = MetaOk" by blast
  then have ex: "\<exists>k. status_script w (n_status w + k) = MetaOk"
    by (intro exI[of _ "m - n_status w"]) simp
  define k where "k = (LEAST k. status_script w (n_status w + k) = MetaOk)"
  have kk: "status_script w (n_status w + k) = MetaOk"
    unfolding k_def using ex by (rule LeastI_ex)
  have lt: "\<forall>j<k. status_script w (n_status w + j) \<noteq> MetaOk"
    unfolding k_def using not_less_Least by blast
  show ?thesis
    unfolding confirmation_loop_success[OF lt kk]
    by (simp add: same_scripts_def is_send_def is_start_def)
qed


lemma retry_frame:
  "get_latest_blockhash_with_retry w = (res, w') \<Longrightarrow>
   same_scripts w w' \<and>
   n_send w' = n_send w \<and> n_status w' = n_status w \<and> n_randint w' = n_randint w \<and>
   filter is_send (trace w') = filter is_send (trace w) \<and>
   filter is_start (trace w') = filter is_start (trace w)"
  unfolding get_latest_blockhash_with_retry_def by (rule blockhash_attempts_frame)

lemma send_frame:
  assumes "send_modified_transaction L inp w = (res, inp', w')"
  shows "inp' = inp \<and> same_scripts w w' \<and> n_status w' = n_status w \<and>
         filter is_start (trace w') = filter is_start (trace w) \<and>
         length (filter is_send (trace w')) \<le> Suc (length (filter is_send (trace w)))"
proof -
  obtain bh w1 where r: "get_latest_blockhash_with_retry w = (bh, w1)"
    by (cases "get_latest_blockhash_with_retry w") auto
  note f = retry_frame[OF r]
  show ?thesis
    using assms f unfolding send_modified_transaction_def r
    by (auto simp add: randint_def rpc_send_raw_transaction_def emit_def same_scripts_def
        is_start_def is_send_def split: option.splits sum.splits if_splits)
qed

lemma send_malformed:
  assumes "send_modified_transaction L inp w = (res, inp', w')"
    and "lib_decode L (in_base64_data inp) = Some tx"
    and "\<And>r. set_last_data_byte r tx = None"
  shows "(\<exists>e. res = Inl e) \<and> n_send w' = n_send w \<and>
         filter is_send (trace w') = filter is_send (trace w) \<and>
         (fst (get_latest_blockhash_with_retry w) \<noteq> None \<and>
          (\<exists>kp. keypair_from_bytes L (in_private_key inp) = Inr kp) \<longrightarrow> res = Inl ValueError_modify)"
proof -
  obtain bh w1 where r: "get_latest_blockhash_with_retry w = (bh, w1)"
    by (cases "get_latest_blockhash_with_retry w") auto
  note f = retry_frame[OF r]
  show ?thesis
    using assms f unfolding send_modified_transaction_def r
    by (auto simp add: randint_def split: option.splits sum.splits if_splits)
qed

lemma send_success:
  assumes "send_modified_transaction L inp w = (Inr sg, inp', w')"
  shows "\<exists>h w1 kp tx tx' stx raw.
     get_latest_blockhash_with_retry w = (Some h, w1) \<and>
     keypair_from_bytes L (in_private_key inp) = Inr kp \<and>
     lib_decode L (in_base64_data inp) = Some tx \<and>
     set_last_data_byte (randint_script w (n_randint w)) tx = Some tx' \<and>
     lib_sign L kp (tx'\<lparr>message := (message tx')\<lparr>recent_blockhash := h\<rparr>\<rparr>) = Some stx \<and>
     lib_serialize L stx = Some raw \<and>
     send_script w (n_send w) = Some sg \<and>
     trace w' = trace w1 @ [RpcSend raw]"
proof -
  obtain bh w1 where r: "get_latest_blockhash_with_retry w = (bh, w1)"
    by (cases "get_latest_blockhash_with_retry w") auto
  note f = retry_frame[OF r]
  show ?thesis
    using assms f unfolding send_modified_transaction_def r
    by (auto simp add: randint_def rpc_send_raw_transaction_def emit_def same_scripts_def
        split: option.splits sum.splits if_splits)
qed


section \<open>The loop body and the loop\<close>

lemma eventually_confirms_same:
  "same_scripts w w' \<Longrightarrow> eventually_confirms w \<Longrightarrow> eventually_confirms w'"
  by (simp add: same_scripts_def eventually_confirms_def)

lemma send_ok:
  assumes "blockhash_script w (n_blockhash w) = Some h"
    and "keypair_from_bytes L (in_private_key inp) = Inr kp"
    and "lib_decode L (in_base64_data inp) = Some tx"
    and "set_last_data_byte (randint_script w (n_randint w)) tx = Some tx'"
    and "lib_from_json_ok L tx'"
    and "lib_sign L kp (tx'\<lparr>message := (message tx')\<lparr>recent_blockhash := h\<rparr>\<rparr>) = Some stx"
    and "lib_serialize L stx = Some raw"
    and "send_script w (n_send w) = Some sg"
  shows "send_modified_transaction L inp w =
     (Inr sg, inp, w\<lparr>n_blockhash := Suc (n_blockhash w), n_send := Suc (n_send w),
                     n_randint := Suc (n_randint w),
                     trace := trace w @ [RpcGetBlockhash, RpcSend raw]\<rparr>)"
proof -
  have "\<forall>j<0. blockhash_script w (n_blockhash w + j) = None" by simp
  moreover have "blockhash_script w (n_blockhash w + 0) = Some h" using assms(1) by simp
  moreover have "(1::nat) + 0 \<le> 5" by simp
  ultimately have r: "get_latest_blockhash_with_retry w =
     (Some h, w\<lparr>n_blockhash := n_blockhash w + 0 + 1,
                trace := trace w @ concat (replicate 0 [RpcGetBlockhash, Sleep (1 / 2)]) @ [RpcGetBlockhash]\<rparr>)"
    unfolding get_latest_blockhash_with_retry_def by (rule blockhash_attempts_success)
  show ?thesis
    unfolding send_modified_transaction_def r
    using assms by (simp add: randint_def rpc_send_raw_transaction_def emit_def)
qed

lemma iteration_total:
  assumes "eventually_confirms w"
  shows "\<exists>w'. iteration L i (inp, w) = Some (inp, w') \<and> same_scripts w w' \<and>
     filter is_start (trace w') = filter is_start (trace w) @ [LogStart i] \<and>
     length (filter is_send (trace w')) \<le> Suc (length (filter is_send (trace w)))"
proof -
  let ?w0 = "emit (LogStart i) w"
  obtain res inp' w1 where s: "send_modified_transaction L inp ?w0 = (res, inp', w1)"
    by (cases "send_modified_transaction L inp ?w0") auto
  from send_frame[OF s] have inp: "inp' = inp" and ss: "same_scripts ?w0 w1"
    and st: "filter is_start (trace w1) = filter is_start (trace ?w0)"
    and se: "length (filter is_send (trace w1)) \<le> Suc (length (filter is_send (trace ?w0)))"
    by simp_all
  have st0: "filter is_start (trace ?w0) = filter is_start (trace w) @ [LogStart i]"
    by (simp add: emit_def is_start_def)
  have se0: "filter is_send (trace ?w0) = filter is_send (trace w)"
    by (simp add: emit_def is_send_def)
  have ss1: "same_scripts w w1"
    using ss by (simp add: same_scripts_def emit_def)
  show ?thesis
  proof (cases res)
    case (Inl e)
    then have "iteration L i (inp, w) = Some (inp, emit (LogError i e) w1)"
      using s inp by (simp add: iteration_def)
    moreover have "same_scripts w (emit (LogError i e) w1)"
      using ss1 by (simp add: same_scripts_def emit_def)
    moreover have "filter is_start (trace (emit (LogError i e) w1)) = filter is_start (trace w1)"
      by (simp add: emit_def is_start_def)
    moreover have "filter is_send (trace (emit (LogError i e) w1)) = filter is_send (trace w1)"
      by (simp add: emit_def is_send_def)
    ultimately show ?thesis using st st0 se se0 by simp
  next
    case (Inr sg)
    have "eventually_confirms w1" using ss1 assms by (rule eventually_confirms_same)
    then have "\<forall>n. \<exists>m\<ge>n. status_script w1 m = MetaOk" by (simp add: eventually_confirms_def)
    from confirmation_loop_eventually[OF this, of sg]
    obtain w2 where c: "confirmation_loop sg w1 = Some w2" and ss2: "same_scripts w1 w2"
      and se2: "filter is_send (trace w2) = filter is_send (trace w1)"
      and st2: "filter is_start (trace w2) = filter is_start (trace w1)"
      by blast
    have "iteration L i (inp, w) = Some (inp, w2)"
      using s inp Inr c by (simp add: iteration_def)
    moreover have "same_scripts w w2" using ss1 ss2 by (rule same_scripts_trans)
    ultimately show ?thesis using st st0 se se0 se2 st2 by simp
  qed
qed

lemma replay_loop_total:
  assumes "eventually_confirms w"
  shows "\<exists>w'. replay_loop L idxs (inp, w) = Some (inp, w') \<and> same_scripts w w' \<and>
     filter is_start (trace w') = filter is_start (trace w) @ map LogStart idxs \<and>
     length (filter is_send (trace w')) \<le> length (filter is_send (trace w)) + length idxs"
  using assms
proof (induction idxs arbitrary: w)
  case Nil
  then show ?case by (simp add: same_scripts_refl)
next
  case (Cons i idxs)
  from iteration_total[OF Cons.prems, of L i inp]
  obtain w1 where it: "iteration L i (inp, w) = Some (inp, w1)" and ss: "same_scripts w w1"
    and st: "filter is_start (trace w1) = filter is_start (trace w) @ [LogStart i]"
    and se: "length (filter is_send (trace w1)) \<le> Suc (length (filter is_send (trace w)))"
    by blast
  have "eventually_confirms w1" using ss Cons.prems by (rule eventually_confirms_same)
  from Cons.IH[OF this]
  obtain w2 where r: "replay_loop L idxs (inp, w1) = Some (inp, w2)" and ss2: "same_scripts w1 w2"
    and st2: "filter is_start (trace w2) = filter is_start (trace w1) @ map LogStart idxs"
    and se2: "length (filter is_send (trace w2)) \<le> length (filter is_send (trace w1)) + length idxs"
    by blast
  have "replay_loop L (i # idxs) (inp, w) = Some (inp, w2)" using it r by simp
  moreover have "same_scripts w w2" using ss ss2 by (rule same_scripts_trans)
  ultimately show ?case using st st2 se se2 by simp
qed

lemma replay_loop_inputs:
  "replay_loop L idxs (inp, w) = Some s \<Longrightarrow> fst s = inp"
proof (induction idxs arbitrary: w)
  case Nil
  then show ?case by auto
next
  case (Cons i idxs)
  from Cons.prems obtain s1 where it: "iteration L i (inp, w) = Some s1"
    and r: "replay_loop L idxs s1 = Some s"
    by (auto split: option.splits)
  obtain res inp' w1 where sd: "send_modified_transaction L inp (emit (LogStart i) w) = (res, inp', w1)"
    by (cases "send_modified_transaction L inp (emit (LogStart i) w)") auto
  from send_frame[OF sd] have "inp' = inp" by simp
  with it sd have "fst s1 = inp"
    by (auto simp add: iteration_def split: sum.splits option.splits)
  then obtain w1' where "s1 = (inp, w1')" by (cases s1) auto
  with r Cons.IH show ?case by simp
qed

section \<open>Evaluation helpers\<close>

lemma key_demo_ok: "keypair_from_bytes lib_demo key_demo = Inr [1, 2, 3, 4]"
  by (simp add: keypair_from_bytes_def py_bytes_def key_demo_def lib_demo_def)

lemma retry_first_ok:
  assumes "blockhash_script w (n_blockhash w) = Some h"
  shows "get_latest_blockhash_with_retry w =
     (Some h, w\<lparr>n_blockhash := Suc (n_blockhash w), trace := trace w @ [RpcGetBlockhash]\<rparr>)"
proof -
  have "\<forall>j<0. blockhash_script w (n_blockhash w + j) = None" by simp
  moreover have "blockhash_script w (n_blockhash w + 0) = Some h" using assms(1) by simp
  moreover have "(1::nat) + 0 \<le> 5" by simp
  ultimately have r: "get_latest_blockhash_with_retry w =
     (Some h, w\<lparr>n_blockhash := n_blockhash w + 0 + 1,
                trace := trace w @ concat (replicate 0 [RpcGetBlockhash, Sleep (1 / 2)]) @ [RpcGetBlockhash]\<rparr>)"
    unfolding get_latest_blockhash_with_retry_def by (rule blockhash_attempts_success)
  then show ?thesis by simp
qed

lemma retry_exhausted:
  assumes "\<forall>j<5. blockhash_script w (n_blockhash w + j) = None"
  shows "get_latest_blockhash_with_retry w =
        (None, w\<lparr>n_blockhash := n_blockhash w + 5,
                 trace := trace w @
                   [RpcGetBlockhash, Sleep (1 / 2), RpcGetBlockhash, Sleep (1 / 2),
                    RpcGetBlockhash, Sleep (1 / 2), RpcGetBlockhash, Sleep (1 / 2),
                    RpcGetBlockhash]\<rparr>)"
proof -
  from assms have a': "\<forall>j\<le>4. blockhash_script w (n_blockhash w + j) = None" by simp
  have "(1::nat) + 4 = 5" by simp
  from blockhash_attempts_exhausted[OF a' this, of "1 / 2"]
  show ?thesis
    unfolding get_latest_blockhash_with_retry_def by (simp add: eval_nat_numeral)
qed

lemma iteration_no_blockhash:
  assumes "\<forall>j<5. blockhash_script w (n_blockhash w + j) = None"
  shows "iteration L i (inp, w) =
     Some (inp, w\<lparr>n_blockhash := n_blockhash w + 5,
                  trace := trace w @
                    [LogStart i,
                     RpcGetBlockhash, Sleep (1 / 2), RpcGetBlockhash, Sleep (1 / 2),
                     RpcGetBlockhash, Sleep (1 / 2), RpcGetBlockhash, Sleep (1 / 2),
                     RpcGetBlockhash,
                     LogError i RuntimeError_blockhash]\<rparr>)"
proof -
  let ?u = "emit (LogStart i) w"
  have a: "\<forall>j<5. blockhash_script ?u (n_blockhash ?u + j) = None"
    using assms by (simp add: emit_def)
  have "send_modified_transaction L inp ?u =
     (Inl RuntimeError_blockhash, inp, snd (get_latest_blockhash_with_retry ?u))"
    unfolding send_modified_transaction_def retry_exhausted[OF a] by simp
  then have "iteration L i (inp, w) =
     Some (inp, emit (LogError i RuntimeError_blockhash) (snd (get_latest_blockhash_with_retry ?u)))"
    by (simp add: iteration_def)
  then show ?thesis
    unfolding retry_exhausted[OF a] by (simp add: emit_def)
qed

lemma replay_loop_no_blockhash:
  assumes "\<forall>k. blockhash_script w k = None"
  shows "\<exists>w'. replay_loop L idxs (inp, w) = Some (inp, w') \<and>
     blockhash_script w' = blockhash_script w \<and>
     filter is_start (trace w') = filter is_start (trace w) @ map LogStart idxs \<and>
     filter is_send (trace w') = filter is_send (trace w) \<and>
     n_blockhash w' = n_blockhash w + 5 * length idxs"
  using assms
proof (induction idxs arbitrary: w)
  case Nil
  show ?case by simp
next
  case (Cons i idxs)
  let ?w1 = "w\<lparr>n_blockhash := n_blockhash w + 5,
                  trace := trace w @
                    [LogStart i,
                     RpcGetBlockhash, Sleep (1 / 2), RpcGetBlockhash, Sleep (1 / 2),
                     RpcGetBlockhash, Sleep (1 / 2), RpcGetBlockhash, Sleep (1 / 2),
                     RpcGetBlockhash,
                     LogError i RuntimeError_blockhash]\<rparr>"
  have "\<forall>j<5. blockhash_script w (n_blockhash w + j) = None" using Cons.prems by simp
  then have it: "iteration L i (inp, w) = Some (inp, ?w1)" by (rule iteration_no_blockhash)
  have "\<forall>k. blockhash_script ?w1 k = None"
  proof
    fix k
    from Cons.prems have "blockhash_script w k = None" by blast
    then show "blockhash_script ?w1 k = None" by simp
  qed
  from Cons.IH[OF this]
  obtain w' where r: "replay_loop L idxs (inp, ?w1) = Some (inp, w')"
    and b: "blockhash_script w' = blockhash_script ?w1"
    and st: "filter is_start (trace w') = filter is_start (trace ?w1) @ map LogStart idxs"
    and se: "filter is_send (trace w') = filter is_send (trace ?w1)"
    and n: "n_blockhash w' = n_blockhash ?w1 + 5 * length idxs"
    by blast
  have "replay_loop L (i # idxs) (inp, w) = Some (inp, w')"
    by (simp only: replay_loop.simps it option.case r)
  moreover have "blockhash_script w' = blockhash_script w" using b by simp
  moreover have "filter is_start (trace w') = filter is_start (trace w) @ map LogStart (i # idxs)"
    using st by (simp add: is_start_def)
  moreover have "filter is_send (trace w') = filter is_send (trace w)"
    using se by (simp add: is_send_def)
  moreover have "n_blockhash w' = n_blockhash w + 5 * length (i # idxs)"
    using n by simp
  ultimately show ?case by blast
qed

lemma send_demo:
  assumes "blockhash_script w (n_blockhash w) = Some h"
    and "send_script w (n_send w) = Some sg"
    and "randint_script w (n_randint w) = 9"
  shows "\<exists>w1. send_modified_transaction lib_demo inputs_demo w = (Inr sg, inputs_demo, w1) \<and>
     status_script w1 = status_script w \<and> n_status w1 = n_status w \<and>
     trace w1 = trace w @ [RpcGetBlockhash, RpcSend [1, 2, 3, 9]]"
proof -
  let ?tx' = "tx_demo\<lparr>message := (message tx_demo)\<lparr>instructions :=
     [\<lparr>program_id_index = 1, accounts = [0], data = [1, 2]\<rparr>,
      \<lparr>program_id_index = 1, accounts = [0], data = [3, 9]\<rparr>]\<rparr>\<rparr>"
  have k: "keypair_from_bytes lib_demo (in_private_key inputs_demo) = Inr [1, 2, 3, 4]"
    by (simp add: inputs_demo_def key_demo_ok)
  have d: "lib_decode lib_demo (in_base64_data inputs_demo) = Some tx_demo"
    by (simp add: lib_demo_def inputs_demo_def)
  have m: "set_last_data_byte (randint_script w (n_randint w)) tx_demo = Some ?tx'"
    unfolding assms(3) by (simp add: tx_demo_def set_last_data_byte_def)
  have j: "lib_from_json_ok lib_demo ?tx'" by (simp add: lib_demo_def)
  have sgn: "lib_sign lib_demo [1, 2, 3, 4] (?tx'\<lparr>message := (message ?tx')\<lparr>recent_blockhash := h\<rparr>\<rparr>)
     = Some ((?tx'\<lparr>message := (message ?tx')\<lparr>recent_blockhash := h\<rparr>\<rparr>)\<lparr>signatures := [''signed'']\<rparr>)"
    by (simp add: lib_demo_def)
  have ser: "lib_serialize lib_demo ((?tx'\<lparr>message := (message ?tx')\<lparr>recent_blockhash := h\<rparr>\<rparr>)\<lparr>signatures := [''signed'']\<rparr>)
     = Some [1, 2, 3, 9]"
    by (simp add: lib_demo_def tx_demo_def)
  from send_ok[OF assms(1) k d m j sgn ser assms(2)]
  show ?thesis by simp
qed

lemma eventually_confirms_ok:
  "eventually_confirms (world_init bs ss status_ok)"
  by (auto simp add: eventually_confirms_def world_init_def status_ok_def)






section \<open>Malformed templates\<close>

text \<open>
  Claim C5: for every template whose decoded form has fewer than 2 instructions, or whose
  instruction-1 data buffer is empty, the mutation step always fails and never partially
  mutates. Line 53 raises for every drawn value, so no modified transaction exists; the
  submission raises, nothing is sent to the node, and the inputs are unchanged. Once the
  block hash and the key pair were obtained, the error is the one of line 57,
  \<open>ValueError_modify\<close>, which the specification calls MalformedTemplate.
\<close>

theorem malformed_template_fails:
  assumes "length (instructions (message tx)) < 2 \<or> data (instructions (message tx) ! 1) = []"
    and "lib_decode L (in_base64_data inp) = Some tx"
  shows "set_last_data_byte r tx = None \<and>
     (case send_modified_transaction L inp w of
        (res, inp', w') \<Rightarrow>
          (\<exists>e. res = Inl e) \<and> inp' = inp \<and> n_send w' = n_send w \<and>
          filter is_send (trace w') = filter is_send (trace w) \<and>
          (fst (get_latest_blockhash_with_retry w) \<noteq> None \<and>
           (\<exists>kp. keypair_from_bytes L (in_private_key inp) = Inr kp) \<longrightarrow>
           res = Inl ValueError_modify))"
proof -
  have n: "\<And>r. set_last_data_byte r tx = None"
    using assms(1) by (rule set_last_data_byte_None)
  obtain res inp' w' where s: "send_modified_transaction L inp w = (res, inp', w')"
    by (cases "send_modified_transaction L inp w") auto
  from send_frame[OF s] have "inp' = inp" by simp
  with send_malformed[OF s assms(2) n] n show ?thesis
    unfolding s by simp
qed

theorem malformed_template_fails_witness:
  "(length (instructions (message tx_one_instruction)) < 2 \<or>
      data (instructions (message tx_one_instruction) ! 1) = []) \<and>
   lib_decode lib_demo (in_base64_data inputs_short) = Some tx_one_instruction \<and>
   set_last_data_byte 9 tx_one_instruction = None \<and>
   fst (send_modified_transaction lib_demo inputs_short
          (world_init blockhash_always send_always status_ok)) = Inl ValueError_modify"
proof -
  let ?w = "world_init blockhash_always send_always status_ok"
  have h1: "length (instructions (message tx_one_instruction)) < 2 \<or>
      data (instructions (message tx_one_instruction) ! 1) = []"
    by (simp add: tx_one_instruction_def)
  have h2: "lib_decode lib_demo (in_base64_data inputs_short) = Some tx_one_instruction"
    by (simp add: lib_demo_def inputs_short_def)
  have b: "fst (get_latest_blockhash_with_retry ?w) \<noteq> None"
    by (subst retry_first_ok[of _ "''hash''"]) (simp_all add: world_init_def blockhash_always_def)
  have k: "\<exists>kp. keypair_from_bytes lib_demo (in_private_key inputs_short) = Inr kp"
    by (simp add: inputs_short_def key_demo_ok)
  from malformed_template_fails[OF h1 h2, of 9 ?w] b k h1 h2
  show ?thesis by (auto split: prod.splits)
qed

section \<open>Block hash retries\<close>

text \<open>
  Claim C4: on sustained RPC failure the block hash fetch makes exactly 5 attempts with a
  fixed delay of 0.5 between attempts, then reports that no block hash is available
  (\<open>RuntimeError_blockhash\<close>), which aborts only the current repetition: the loop
  body returns after logging the error, and the replay loop continues with the remaining
  repetitions. When every fetch fails, the loop still returns, after starting every
  repetition once and making 5 attempts in each. On success at attempt \<open>K \<le> 5\<close> the
  fetch returns the block hash at once, after \<open>K\<close> attempts and \<open>K - 1\<close> delays.
\<close>

theorem blockhash_fetch_retries:
  "((\<forall>j<5. blockhash_script w (n_blockhash w + j) = None) \<longrightarrow>
      get_latest_blockhash_with_retry w =
        (None, w\<lparr>n_blockhash := n_blockhash w + 5,
                 trace := trace w @
                   [RpcGetBlockhash, Sleep (1 / 2), RpcGetBlockhash, Sleep (1 / 2),
                    RpcGetBlockhash, Sleep (1 / 2), RpcGetBlockhash, Sleep (1 / 2),
                    RpcGetBlockhash]\<rparr>) \<and>
      fst (send_modified_transaction L inp w) = Inl RuntimeError_blockhash \<and>
      iteration L i (inp, w) =
        Some (inp, w\<lparr>n_blockhash := n_blockhash w + 5,
                  trace := trace w @
                    [LogStart i,
                     RpcGetBlockhash, Sleep (1 / 2), RpcGetBlockhash, Sleep (1 / 2),
                     RpcGetBlockhash, Sleep (1 / 2), RpcGetBlockhash, Sleep (1 / 2),
                     RpcGetBlockhash,
                     LogError i RuntimeError_blockhash]\<rparr>) \<and>
      replay_loop L [i] (inp, w) =
        Some (inp, w\<lparr>n_blockhash := n_blockhash w + 5,
                  trace := trace w @
                    [LogStart i,
                     RpcGetBlockhash, Sleep (1 / 2), RpcGetBlockhash, Sleep (1 / 2),
                     RpcGetBlockhash, Sleep (1 / 2), RpcGetBlockhash, Sleep (1 / 2),
                     RpcGetBlockhash,
                     LogError i RuntimeError_blockhash]\<rparr>) \<and>
      replay_loop L (i # rest) (inp, w) =
        replay_loop L rest
          (inp, w\<lparr>n_blockhash := n_blockhash w + 5,
                  trace := trace w @
                    [LogStart i,
                     RpcGetBlockhash, Sleep (1 / 2), RpcGetBlockhash, Sleep (1 / 2),
                     RpcGetBlockhash, Sleep (1 / 2), RpcGetBlockhash, Sleep (1 / 2),
                     RpcGetBlockhash,
                     LogError i RuntimeError_blockhash]\<rparr>)) \<and>
   ((\<forall>k. blockhash_script w k = None) \<longrightarrow>
      (\<exists>w'. replay_loop L idxs (inp, w) = Some (inp, w') \<and>
         filter is_start (trace w') = filter is_start (trace w) @ map LogStart idxs \<and>
         filter is_send (trace w') = filter is_send (trace w) \<and>
         n_blockhash w' = n_blockhash w + 5 * length idxs) \<and>
      (\<forall>kp. keypair_from_bytes L (private_key task) = Inr kp \<longrightarrow>
         (\<exists>w'. process_wallet L task w = Some (Inr (), w') \<and>
            filter is_start (trace w') =
              filter is_start (trace w) @ map LogStart [0..<nat (repeat_count task)] \<and>
            n_blockhash w' = n_blockhash w + 5 * nat (repeat_count task)))) \<and>
   (1 \<le> K \<and> K \<le> 5 \<and> (\<forall>j<K - 1. blockhash_script w (n_blockhash w + j) = None) \<and>
      blockhash_script w (n_blockhash w + (K - 1)) = Some h \<longrightarrow>
      get_latest_blockhash_with_retry w =
        (Some h, w\<lparr>n_blockhash := n_blockhash w + K,
                   trace := trace w @ concat (replicate (K - 1) [RpcGetBlockhash, Sleep (1 / 2)]) @
                            [RpcGetBlockhash]\<rparr>))"
proof -
  let ?w1 = "w\<lparr>n_blockhash := n_blockhash w + 5,
                  trace := trace w @
                    [LogStart i,
                     RpcGetBlockhash, Sleep (1 / 2), RpcGetBlockhash, Sleep (1 / 2),
                     RpcGetBlockhash, Sleep (1 / 2), RpcGetBlockhash, Sleep (1 / 2),
                     RpcGetBlockhash,
                     LogError i RuntimeError_blockhash]\<rparr>"
  have A: "(\<forall>j<5. blockhash_script w (n_blockhash w + j) = None) \<longrightarrow>
      get_latest_blockhash_with_retry w =
        (None, w\<lparr>n_blockhash := n_blockhash w + 5,
                 trace := trace w @
                   [RpcGetBlockhash, Sleep (1 / 2), RpcGetBlockhash, Sleep (1 / 2),
                    RpcGetBlockhash, Sleep (1 / 2), RpcGetBlockhash, Sleep (1 / 2),
                    RpcGetBlockhash]\<rparr>) \<and>
      fst (send_modified_transaction L inp w) = Inl RuntimeError_blockhash \<and>
      iteration L i (inp, w) = Some (inp, ?w1) \<and>
      replay_loop L [i] (inp, w) = Some (inp, ?w1) \<and>
      replay_loop L (i # rest) (inp, w) = replay_loop L rest (inp, ?w1)"
  proof (intro impI conjI)
    assume a: "\<forall>j<5. blockhash_script w (n_blockhash w + j) = None"
    show "get_latest_blockhash_with_retry w =
        (None, w\<lparr>n_blockhash := n_blockhash w + 5,
                 trace := trace w @
                   [RpcGetBlockhash, Sleep (1 / 2), RpcGetBlockhash, Sleep (1 / 2),
                    RpcGetBlockhash, Sleep (1 / 2), RpcGetBlockhash, Sleep (1 / 2),
                    RpcGetBlockhash]\<rparr>)"
      using a by (rule retry_exhausted)
    show "fst (send_modified_transaction L inp w) = Inl RuntimeError_blockhash"
      unfolding send_modified_transaction_def retry_exhausted[OF a] by simp
    show it: "iteration L i (inp, w) = Some (inp, ?w1)"
      using a by (rule iteration_no_blockhash)
    show "replay_loop L [i] (inp, w) = Some (inp, ?w1)"
      by (simp only: replay_loop.simps it option.case)
    show "replay_loop L (i # rest) (inp, w) = replay_loop L rest (inp, ?w1)"
      by (simp only: replay_loop.simps it option.case)
  qed
  have B: "(\<forall>k. blockhash_script w k = None) \<longrightarrow>
      (\<exists>w'. replay_loop L idxs (inp, w) = Some (inp, w') \<and>
         filter is_start (trace w') = filter is_start (trace w) @ map LogStart idxs \<and>
         filter is_send (trace w') = filter is_send (trace w) \<and>
         n_blockhash w' = n_blockhash w + 5 * length idxs) \<and>
      (\<forall>kp. keypair_from_bytes L (private_key task) = Inr kp \<longrightarrow>
         (\<exists>w'. process_wallet L task w = Some (Inr (), w') \<and>
            filter is_start (trace w') =
              filter is_start (trace w) @ map LogStart [0..<nat (repeat_count task)] \<and>
            n_blockhash w' = n_blockhash w + 5 * nat (repeat_count task)))"
  proof (intro impI conjI allI)
    assume a: "\<forall>k. blockhash_script w k = None"
    from replay_loop_no_blockhash[OF a, where L = L and idxs = idxs and inp = inp]
    show "\<exists>w'. replay_loop L idxs (inp, w) = Some (inp, w') \<and>
         filter is_start (trace w') = filter is_start (trace w) @ map LogStart idxs \<and>
         filter is_send (trace w') = filter is_send (trace w) \<and>
         n_blockhash w' = n_blockhash w + 5 * length idxs"
      by blast
    fix kp assume k: "keypair_from_bytes L (private_key task) = Inr kp"
    let ?inp = "\<lparr>in_base64_data = base64_data task, in_private_key = private_key task\<rparr>"
    from replay_loop_no_blockhash[OF a, where L = L and idxs = "[0..<nat (repeat_count task)]"
        and inp = ?inp]
    obtain w' where r: "replay_loop L [0..<nat (repeat_count task)] (?inp, w) = Some (?inp, w')"
      and st: "filter is_start (trace w') =
          filter is_start (trace w) @ map LogStart [0..<nat (repeat_count task)]"
      and n: "n_blockhash w' = n_blockhash w + 5 * length [0..<nat (repeat_count task)]"
      by blast
    have "process_wallet L task w = Some (Inr (), w')"
      using k r by (simp add: process_wallet_def)
    with st n show "\<exists>w'. process_wallet L task w = Some (Inr (), w') \<and>
            filter is_start (trace w') =
              filter is_start (trace w) @ map LogStart [0..<nat (repeat_count task)] \<and>
            n_blockhash w' = n_blockhash w + 5 * nat (repeat_count task)"
      by auto
  qed
  have C: "1 \<le> K \<and> K \<le> 5 \<and> (\<forall>j<K - 1. blockhash_script w (n_blockhash w + j) = None) \<and>
      blockhash_script w (n_blockhash w + (K - 1)) = Some h \<longrightarrow>
      get_latest_blockhash_with_retry w =
        (Some h, w\<lparr>n_blockhash := n_blockhash w + K,
                   trace := trace w @ concat (replicate (K - 1) [RpcGetBlockhash, Sleep (1 / 2)]) @
                            [RpcGetBlockhash]\<rparr>)"
  proof
    assume k: "1 \<le> K \<and> K \<le> 5 \<and> (\<forall>j<K - 1. blockhash_script w (n_blockhash w + j) = None) \<and>
        blockhash_script w (n_blockhash w + (K - 1)) = Some h"
    then have f: "\<forall>j<K - 1. blockhash_script w (n_blockhash w + j) = None"
      and g: "blockhash_script w (n_blockhash w + (K - 1)) = Some h"
      by blast+
    from k have b: "1 + (K - 1) \<le> (5::nat)" by arith
    from blockhash_attempts_success[OF f g b, of "1 / 2"] k
    show "get_latest_blockhash_with_retry w =
          (Some h, w\<lparr>n_blockhash := n_blockhash w + K,
                     trace := trace w @ concat (replicate (K - 1) [RpcGetBlockhash, Sleep (1 / 2)]) @
                              [RpcGetBlockhash]\<rparr>)"
      unfolding get_latest_blockhash_with_retry_def by simp
  qed
  from A B C show ?thesis by (intro conjI)
qed

theorem blockhash_fetch_retries_witness:
  "list_all (\<lambda>j. blockhash_script (world_init blockhash_never send_always status_ok)
                   (n_blockhash (world_init blockhash_never send_always status_ok) + j) = None)
     [0, 1, 2, 3, 4] \<and>
   fst (get_latest_blockhash_with_retry (world_init blockhash_never send_always status_ok)) = None \<and>
   trace (snd (get_latest_blockhash_with_retry (world_init blockhash_never send_always status_ok))) =
     [RpcGetBlockhash, Sleep (1 / 2), RpcGetBlockhash, Sleep (1 / 2),
      RpcGetBlockhash, Sleep (1 / 2), RpcGetBlockhash, Sleep (1 / 2), RpcGetBlockhash] \<and>
   fst (send_modified_transaction lib_demo inputs_demo
          (world_init blockhash_never send_always status_ok)) = Inl RuntimeError_blockhash \<and>
   replay_loop lib_demo [0, 1] (inputs_demo, world_init blockhash_never send_always status_ok) =
     Some (inputs_demo,
       (world_init blockhash_never send_always status_ok)
         \<lparr>n_blockhash := 10,
          trace :=
            [LogStart 0,
             RpcGetBlockhash, Sleep (1 / 2), RpcGetBlockhash, Sleep (1 / 2),
                     RpcGetBlockhash, Sleep (1 / 2), RpcGetBlockhash, Sleep (1 / 2),
                     RpcGetBlockhash,
             LogError 0 RuntimeError_blockhash,
             LogStart 1,
             RpcGetBlockhash, Sleep (1 / 2), RpcGetBlockhash, Sleep (1 / 2),
                     RpcGetBlockhash, Sleep (1 / 2), RpcGetBlockhash, Sleep (1 / 2),
                     RpcGetBlockhash,
             LogError 1 RuntimeError_blockhash]\<rparr>) \<and>
   (\<exists>w'. process_wallet lib_demo (task_demo 2)
            (world_init blockhash_never send_always status_ok) = Some (Inr (), w') \<and>
         filter is_start (trace w') = [LogStart 0, LogStart 1] \<and> n_blockhash w' = 10) \<and>
   (1 \<le> (3::nat) \<and> (3::nat) \<le> 5 \<and>
    list_all (\<lambda>j. blockhash_script (world_init blockhash_third send_always status_ok)
                  (n_blockhash (world_init blockhash_third send_always status_ok) + j) = None)
      [0, 1] \<and>
    blockhash_script (world_init blockhash_third send_always status_ok)
      (n_blockhash (world_init blockhash_third send_always status_ok) + (3 - 1)) = Some ''hash'') \<and>
   fst (get_latest_blockhash_with_retry (world_init blockhash_third send_always status_ok)) = Some ''hash'' \<and>
   trace (snd (get_latest_blockhash_with_retry (world_init blockhash_third send_always status_ok))) =
     [RpcGetBlockhash, Sleep (1 / 2), RpcGetBlockhash, Sleep (1 / 2), RpcGetBlockhash]"
proof -
  let ?w = "world_init blockhash_never send_always status_ok"
  let ?v = "world_init blockhash_third send_always status_ok"
  let ?w1 = "?w\<lparr>n_blockhash := n_blockhash ?w + 5,
                  trace := trace ?w @
                    [LogStart 0,
                     RpcGetBlockhash, Sleep (1 / 2), RpcGetBlockhash, Sleep (1 / 2),
                     RpcGetBlockhash, Sleep (1 / 2), RpcGetBlockhash, Sleep (1 / 2),
                     RpcGetBlockhash,
                     LogError 0 RuntimeError_blockhash]\<rparr>"
  let ?w2 = "?w1\<lparr>n_blockhash := n_blockhash ?w1 + 5,
                  trace := trace ?w1 @
                    [LogStart 1,
                     RpcGetBlockhash, Sleep (1 / 2), RpcGetBlockhash, Sleep (1 / 2),
                     RpcGetBlockhash, Sleep (1 / 2), RpcGetBlockhash, Sleep (1 / 2),
                     RpcGetBlockhash,
                     LogError 1 RuntimeError_blockhash]\<rparr>"
  have h: "\<forall>j<5. blockhash_script ?w (n_blockhash ?w + j) = None"
    by (simp add: world_init_def blockhash_never_def)
  have h1: "\<forall>j<5. blockhash_script ?w1 (n_blockhash ?w1 + j) = None"
    by (simp add: world_init_def blockhash_never_def)
  have hall: "\<forall>k. blockhash_script ?w k = None"
    by (simp add: world_init_def blockhash_never_def)
  have k: "1 \<le> (3::nat) \<and> (3::nat) \<le> 5 \<and>
    (\<forall>j<3 - 1. blockhash_script ?v (n_blockhash ?v + j) = None) \<and>
    blockhash_script ?v (n_blockhash ?v + (3 - 1)) = Some ''hash''"
    by (simp add: world_init_def blockhash_third_def)
  have kd: "keypair_from_bytes lib_demo (private_key (task_demo 2)) = Inr [1, 2, 3, 4]"
    by (simp add: task_demo_def key_demo_ok)
  have t1: "trace ?w = []" and t2: "trace ?v = []" by (simp_all add: world_init_def)
  note T = blockhash_fetch_retries[where w = ?w and L = lib_demo and inp = inputs_demo
      and i = 0 and rest = "[1]" and K = 3 and h = "''hash''" and idxs = "[0, 1]"
      and task = "task_demo 2"]
  from T h
  have A: "fst (get_latest_blockhash_with_retry ?w) = None"
    "trace (snd (get_latest_blockhash_with_retry ?w)) =
     [RpcGetBlockhash, Sleep (1 / 2), RpcGetBlockhash, Sleep (1 / 2),
      RpcGetBlockhash, Sleep (1 / 2), RpcGetBlockhash, Sleep (1 / 2), RpcGetBlockhash]"
    "fst (send_modified_transaction lib_demo inputs_demo ?w) = Inl RuntimeError_blockhash"
    by (simp_all add: t1)
  from T h have r1: "replay_loop lib_demo [0, 1] (inputs_demo, ?w) =
      replay_loop lib_demo [1] (inputs_demo, ?w1)"
    by blast
  from blockhash_fetch_retries[where w = ?w1 and L = lib_demo and inp = inputs_demo
      and i = 1 and rest = "[]" and K = 3 and h = "''hash''" and idxs = "[]"
      and task = "task_demo 2"] h1
  have r2: "replay_loop lib_demo [1] (inputs_demo, ?w1) = Some (inputs_demo, ?w2)"
    by blast
  have e: "?w2 = ?w\<lparr>n_blockhash := 10,
          trace :=
            [LogStart 0,
             RpcGetBlockhash, Sleep (1 / 2), RpcGetBlockhash, Sleep (1 / 2),
                     RpcGetBlockhash, Sleep (1 / 2), RpcGetBlockhash, Sleep (1 / 2),
                     RpcGetBlockhash,
             LogError 0 RuntimeError_blockhash,
             LogStart 1,
             RpcGetBlockhash, Sleep (1 / 2), RpcGetBlockhash, Sleep (1 / 2),
                     RpcGetBlockhash, Sleep (1 / 2), RpcGetBlockhash, Sleep (1 / 2),
                     RpcGetBlockhash,
             LogError 1 RuntimeError_blockhash]\<rparr>"
    by (simp add: world_init_def)
  have R: "replay_loop lib_demo [0, 1] (inputs_demo, ?w) =
     Some (inputs_demo, ?w\<lparr>n_blockhash := 10,
          trace :=
            [LogStart 0,
             RpcGetBlockhash, Sleep (1 / 2), RpcGetBlockhash, Sleep (1 / 2),
                     RpcGetBlockhash, Sleep (1 / 2), RpcGetBlockhash, Sleep (1 / 2),
                     RpcGetBlockhash,
             LogError 0 RuntimeError_blockhash,
             LogStart 1,
             RpcGetBlockhash, Sleep (1 / 2), RpcGetBlockhash, Sleep (1 / 2),
                     RpcGetBlockhash, Sleep (1 / 2), RpcGetBlockhash, Sleep (1 / 2),
                     RpcGetBlockhash,
             LogError 1 RuntimeError_blockhash]\<rparr>)"
    by (simp only: r1 r2 e)
  have n2: "[0..<nat (repeat_count (task_demo 2))] = [0, 1]"
    by (simp add: task_demo_def eval_nat_numeral)
  from T hall kd
  obtain w' where p: "process_wallet lib_demo (task_demo 2) ?w = Some (Inr (), w')"
    and ps: "filter is_start (trace w') =
        filter is_start (trace ?w) @ map LogStart [0..<nat (repeat_count (task_demo 2))]"
    and pn: "n_blockhash w' = n_blockhash ?w + 5 * nat (repeat_count (task_demo 2))"
    by blast
  have "filter is_start (trace w') = [LogStart 0, LogStart 1]"
    using ps unfolding n2 by (simp add: t1)
  moreover have "n_blockhash w' = 10" using pn by (simp add: task_demo_def world_init_def)
  ultimately have P: "\<exists>w'. process_wallet lib_demo (task_demo 2) ?w = Some (Inr (), w') \<and>
         filter is_start (trace w') = [LogStart 0, LogStart 1] \<and> n_blockhash w' = 10"
    using p by blast
  from blockhash_fetch_retries[where w = ?v and L = lib_demo and inp = inputs_demo
      and i = 0 and rest = "[]" and K = 3 and h = "''hash''" and idxs = "[]"
      and task = "task_demo 2"] k
  have B: "fst (get_latest_blockhash_with_retry ?v) = Some ''hash''"
    "trace (snd (get_latest_blockhash_with_retry ?v)) =
     [RpcGetBlockhash, Sleep (1 / 2), RpcGetBlockhash, Sleep (1 / 2), RpcGetBlockhash]"
    by (simp_all add: t2 eval_nat_numeral)
  have h': "list_all (\<lambda>j. blockhash_script ?w (n_blockhash ?w + j) = None) [0, 1, 2, 3, 4]"
    by (simp add: world_init_def blockhash_never_def)
  have k': "list_all (\<lambda>j. blockhash_script ?v (n_blockhash ?v + j) = None) [0, 1]"
    by (simp add: world_init_def blockhash_third_def)
  from h' k' k A R P B show ?thesis by blast
qed

section \<open>Confirmation polling\<close>

text \<open>
  Claim C6: for the scripted status sequence [not found, not found, metadata with no
  error], the confirmation poller performs exactly 2 retry delays, of 5 each, and reports
  success on the 3rd query; after that the caller sleeps
  \<^verbatim>\<open>random.uniform(2, 5)\<close> and the loop goes on with the next repetition.
\<close>

theorem confirmed_on_third_query:
  assumes "status_script w (n_status w) = ValueNone"
    and "status_script w (n_status w + 1) = ValueNone"
    and "status_script w (n_status w + 2) = MetaOk"
  shows "confirmation_loop sg w =
     Some (w\<lparr>n_status := n_status w + 3,
             trace := trace w @
               [RpcGetTransaction sg, Sleep 5, RpcGetTransaction sg, Sleep 5,
                RpcGetTransaction sg, SleepUniform 2 5]\<rparr>) \<and>
     \<not> fst (check_transaction_status sg w) \<and>
     \<not> fst (check_transaction_status sg (emit (Sleep 5) (snd (check_transaction_status sg w)))) \<and>
     fst (check_transaction_status sg
            (emit (Sleep 5) (snd (check_transaction_status sg
               (emit (Sleep 5) (snd (check_transaction_status sg w))))))) \<and>
     (send_modified_transaction L inp (emit (LogStart i) v) = (Inr sg, inp, w) \<longrightarrow>
        replay_loop L (i # rest) (inp, v) =
          replay_loop L rest
            (inp, w\<lparr>n_status := n_status w + 3,
                    trace := trace w @
                      [RpcGetTransaction sg, Sleep 5, RpcGetTransaction sg, Sleep 5,
                       RpcGetTransaction sg, SleepUniform 2 5]\<rparr>))"
proof -
  have lt: "\<forall>j<2. status_script w (n_status w + j) \<noteq> MetaOk"
  proof (intro allI impI)
    fix j :: nat assume "j < 2"
    then have "j = 0 \<or> j = 1" by arith
    then show "status_script w (n_status w + j) \<noteq> MetaOk" using assms(1,2) by auto
  qed
  from confirmation_loop_success[OF lt assms(3), of sg]
  have c: "confirmation_loop sg w =
     Some (w\<lparr>n_status := n_status w + 3,
             trace := trace w @
               [RpcGetTransaction sg, Sleep 5, RpcGetTransaction sg, Sleep 5,
                RpcGetTransaction sg, SleepUniform 2 5]\<rparr>)"
    by (simp add: eval_nat_numeral)
  have q: "\<not> fst (check_transaction_status sg w)"
    "\<not> fst (check_transaction_status sg (emit (Sleep 5) (snd (check_transaction_status sg w))))"
    "fst (check_transaction_status sg
            (emit (Sleep 5) (snd (check_transaction_status sg
               (emit (Sleep 5) (snd (check_transaction_status sg w)))))))"
    using assms by (simp_all add: check_transaction_status_eq emit_def eval_nat_numeral)
  have r: "send_modified_transaction L inp (emit (LogStart i) v) = (Inr sg, inp, w) \<longrightarrow>
        replay_loop L (i # rest) (inp, v) =
          replay_loop L rest
            (inp, w\<lparr>n_status := n_status w + 3,
                    trace := trace w @
                      [RpcGetTransaction sg, Sleep 5, RpcGetTransaction sg, Sleep 5,
                       RpcGetTransaction sg, SleepUniform 2 5]\<rparr>)"
    by (simp add: iteration_def c)
  from c q r show ?thesis by blast
qed

theorem confirmed_on_third_query_witness:
  "status_script (world_init blockhash_always send_always status_third)
     (n_status (world_init blockhash_always send_always status_third)) = ValueNone \<and>
   status_script (world_init blockhash_always send_always status_third)
     (n_status (world_init blockhash_always send_always status_third) + 1) = ValueNone \<and>
   status_script (world_init blockhash_always send_always status_third)
     (n_status (world_init blockhash_always send_always status_third) + 2) = MetaOk \<and>
   map_option trace
     (confirmation_loop ''sig'' (world_init blockhash_always send_always status_third)) =
     Some [RpcGetTransaction ''sig'', Sleep 5, RpcGetTransaction ''sig'', Sleep 5,
           RpcGetTransaction ''sig'', SleepUniform 2 5] \<and>
   map_option n_status
     (confirmation_loop ''sig'' (world_init blockhash_always send_always status_third)) = Some 3"
proof -
  let ?w = "world_init blockhash_always send_always status_third"
  have a: "status_script ?w (n_status ?w) = ValueNone"
    and b: "status_script ?w (n_status ?w + 1) = ValueNone"
    and c: "status_script ?w (n_status ?w + 2) = MetaOk"
    by (simp_all add: world_init_def status_third_def)
  from confirmed_on_third_query[OF a b c, of "''sig''"]
  have "confirmation_loop ''sig'' ?w =
     Some (?w\<lparr>n_status := n_status ?w + 3,
             trace := trace ?w @
               [RpcGetTransaction ''sig'', Sleep 5, RpcGetTransaction ''sig'', Sleep 5,
                RpcGetTransaction ''sig'', SleepUniform 2 5]\<rparr>)"
    by blast
  then have "map_option trace (confirmation_loop ''sig'' ?w) =
     Some [RpcGetTransaction ''sig'', Sleep 5, RpcGetTransaction ''sig'', Sleep 5,
           RpcGetTransaction ''sig'', SleepUniform 2 5]"
    and "map_option n_status (confirmation_loop ''sig'' ?w) = Some 3"
    by (simp_all add: world_init_def)
  with a b c show ?thesis by blast
qed

text \<open>
  Claim C1, as stated: when the status query returns metadata with an error field, the
  poller stops with zero further retries and the replay loop advances to the next
  repetition. It does not. \<^verbatim>\<open>check_transaction_status\<close> returns \<open>False\<close> for an
  error as for a transaction that was not found, and the loop of line 145 leaves only on
  \<open>True\<close>. With the answers [error, success] the same submission is queried a second
  time after a delay of 5; with an error on every query the loop over the indices 0 and 1
  never returns, so the repetition of index 1 never starts.
\<close>

theorem error_status_counterexample:
  "status_script (world_init blockhash_always send_always status_err_then_ok)
     (n_status (world_init blockhash_always send_always status_err_then_ok)) = MetaErr ''err'' \<and>
   map_option trace
     (confirmation_loop ''sig'' (world_init blockhash_always send_always status_err_then_ok)) =
     Some [RpcGetTransaction ''sig'', Sleep 5, RpcGetTransaction ''sig'', SleepUniform 2 5] \<and>
   status_script (world_init blockhash_always send_always status_err_forever)
     (n_status (world_init blockhash_always send_always status_err_forever)) = MetaErr ''err'' \<and>
   replay_loop lib_demo [0, 1]
     (inputs_demo, world_init blockhash_always send_always status_err_forever) = None"
proof -
  let ?w = "world_init blockhash_always send_always status_err_then_ok"
  let ?v = "world_init blockhash_always send_always status_err_forever"
  have a: "status_script ?w (n_status ?w) = MetaErr ''err''"
    by (simp add: world_init_def status_err_then_ok_def)
  have lt: "\<forall>j<1. status_script ?w (n_status ?w + j) \<noteq> MetaOk"
    by (simp add: world_init_def status_err_then_ok_def)
  have ok: "status_script ?w (n_status ?w + 1) = MetaOk"
    by (simp add: world_init_def status_err_then_ok_def)
  have b: "map_option trace (confirmation_loop ''sig'' ?w) =
     Some [RpcGetTransaction ''sig'', Sleep 5, RpcGetTransaction ''sig'', SleepUniform 2 5]"
    unfolding confirmation_loop_success[OF lt ok] by (simp add: world_init_def)
  have c: "status_script ?v (n_status ?v) = MetaErr ''err''"
    by (simp add: world_init_def status_err_forever_def)
  let ?u = "emit (LogStart 0) ?v"
  have "\<exists>w1. send_modified_transaction lib_demo inputs_demo ?u = (Inr ''sig'', inputs_demo, w1) \<and>
     status_script w1 = status_script ?u \<and> n_status w1 = n_status ?u \<and>
     trace w1 = trace ?u @ [RpcGetBlockhash, RpcSend [1, 2, 3, 9]]"
    by (rule send_demo[of _ "''hash''"])
       (simp_all add: world_init_def emit_def blockhash_always_def send_always_def)
  then obtain w1 where s: "send_modified_transaction lib_demo inputs_demo ?u = (Inr ''sig'', inputs_demo, w1)"
    and st: "status_script w1 = status_script ?u" by blast
  have "\<forall>j. status_script w1 (n_status w1 + j) \<noteq> MetaOk"
    unfolding st by (simp add: world_init_def emit_def status_err_forever_def)
  then have "confirmation_loop ''sig'' w1 = None" by (rule confirmation_loop_diverges)
  then have "iteration lib_demo 0 (inputs_demo, ?v) = None"
    using s by (simp add: iteration_def)
  then have d: "replay_loop lib_demo [0, 1] (inputs_demo, ?v) = None" by simp
  from a b c d show ?thesis by blast
qed

text \<open>
  Claim C1, amended: when the status query returns metadata with an error field,
  \<^verbatim>\<open>check_transaction_status\<close> returns \<open>False\<close> at once, after that single
  query; the replay loop then waits 5 and queries the same submission again, as for a
  transaction not yet confirmed. It advances to the next repetition only after a query
  that reports success, the \<open>k\<close>-th one after \<open>k\<close> delays; when no later query
  reports success it never advances.
\<close>

theorem error_status_is_polled_again:
  assumes "status_script w (n_status w) = MetaErr d"
  shows "check_transaction_status sg w =
       (False, emit (RpcGetTransaction sg) (w\<lparr>n_status := Suc (n_status w)\<rparr>)) \<and>
     confirmation_loop sg w =
       confirmation_loop sg
         (emit (Sleep 5) (emit (RpcGetTransaction sg) (w\<lparr>n_status := Suc (n_status w)\<rparr>))) \<and>
     ((\<forall>j. status_script w (n_status w + j) \<noteq> MetaOk) \<longrightarrow> confirmation_loop sg w = None) \<and>
     (\<forall>k. (\<forall>j<k. status_script w (n_status w + j) \<noteq> MetaOk) \<and>
          status_script w (n_status w + k) = MetaOk \<longrightarrow>
          confirmation_loop sg w =
            Some (w\<lparr>n_status := n_status w + k + 1,
                    trace := trace w @ concat (replicate k [RpcGetTransaction sg, Sleep 5]) @
                             [RpcGetTransaction sg, SleepUniform 2 5]\<rparr>))"
proof -
  have ne: "status_script w (n_status w) \<noteq> MetaOk" using assms by simp
  have a: "check_transaction_status sg w =
       (False, emit (RpcGetTransaction sg) (w\<lparr>n_status := Suc (n_status w)\<rparr>))"
    using assms by (simp add: check_transaction_status_eq)
  have b: "confirmation_loop sg w =
       confirmation_loop sg
         (emit (Sleep 5) (emit (RpcGetTransaction sg) (w\<lparr>n_status := Suc (n_status w)\<rparr>)))"
    using ne by (rule confirmation_loop_step)
  have c: "(\<forall>j. status_script w (n_status w + j) \<noteq> MetaOk) \<longrightarrow> confirmation_loop sg w = None"
    using confirmation_loop_diverges by blast
  have d: "\<forall>k. (\<forall>j<k. status_script w (n_status w + j) \<noteq> MetaOk) \<and>
          status_script w (n_status w + k) = MetaOk \<longrightarrow>
          confirmation_loop sg w =
            Some (w\<lparr>n_status := n_status w + k + 1,
                    trace := trace w @ concat (replicate k [RpcGetTransaction sg, Sleep 5]) @
                             [RpcGetTransaction sg, SleepUniform 2 5]\<rparr>)"
    using confirmation_loop_success by blast
  from a b c d show ?thesis by blast
qed

theorem error_status_is_polled_again_witness:
  "status_script (world_init blockhash_always send_always status_err_then_ok)
     (n_status (world_init blockhash_always send_always status_err_then_ok)) = MetaErr ''err'' \<and>
   fst (check_transaction_status ''sig''
          (world_init blockhash_always send_always status_err_then_ok)) = False \<and>
   confirmation_loop ''sig'' (world_init blockhash_always send_always status_err_then_ok) =
     confirmation_loop ''sig''
       (emit (Sleep 5) (emit (RpcGetTransaction ''sig'')
          ((world_init blockhash_always send_always status_err_then_ok)
             \<lparr>n_status := Suc (n_status (world_init blockhash_always send_always status_err_then_ok))\<rparr>)))"
proof -
  let ?w = "world_init blockhash_always send_always status_err_then_ok"
  have a: "status_script ?w (n_status ?w) = MetaErr ''err''"
    by (simp add: world_init_def status_err_then_ok_def)
  from error_status_is_polled_again[OF a, of "''sig''"] a show ?thesis by simp
qed

section \<open>Repeat counts of zero or less\<close>

text \<open>
  Claim C10, as stated: for every account task whose repeat count is zero or negative,
  the replay loop returns normally without raising an error. It does not for every task:
  line 134 builds the key pair before the loop and outside any handler, so a task whose
  key is rejected makes \<^verbatim>\<open>process_wallet\<close> raise, whatever the repeat count.
  \<^verbatim>\<open>bytes([256])\<close> raises ValueError, and the loader accepts such a row.
\<close>

theorem bad_key_raises_counterexample:
  "repeat_count task_bad_key \<le> 0 \<and>
   process_wallet lib_demo task_bad_key (world_init blockhash_always send_always status_ok) =
     Some (Inl Keypair_error, world_init blockhash_always send_always status_ok)"
  by (simp add: task_bad_key_def process_wallet_def keypair_from_bytes_def py_bytes_def)

text \<open>
  Claim C10, amended: for every account task whose private key is accepted as a key pair
  and whose repeat count is zero or negative, the replay loop performs zero iterations,
  with no block hash fetch, no submission and no status query, and returns normally
  without raising an error. With a key that is rejected the function raises the key error
  instead, also before any call to the node: the world is unchanged in both cases.
\<close>

theorem nonpositive_repeat_count:
  assumes "repeat_count task \<le> 0"
  shows "(\<forall>kp. keypair_from_bytes L (private_key task) = Inr kp \<longrightarrow>
            process_wallet L task w = Some (Inr (), w)) \<and>
         (\<forall>e. keypair_from_bytes L (private_key task) = Inl e \<longrightarrow>
            process_wallet L task w = Some (Inl e, w))"
  using assms by (simp add: process_wallet_def)

theorem nonpositive_repeat_count_witness:
  "repeat_count (task_demo (- 2)) \<le> 0 \<and>
   keypair_from_bytes lib_demo (private_key (task_demo (- 2))) = Inr [1, 2, 3, 4] \<and>
   process_wallet lib_demo (task_demo (- 2)) (world_init blockhash_always send_always status_ok) =
     Some (Inr (), world_init blockhash_always send_always status_ok)"
proof -
  have h: "repeat_count (task_demo (- 2)) \<le> 0" by (simp add: task_demo_def)
  have k: "keypair_from_bytes lib_demo (private_key (task_demo (- 2))) = Inr [1, 2, 3, 4]"
    by (simp add: task_demo_def key_demo_ok)
  from nonpositive_repeat_count[OF h, of lib_demo "world_init blockhash_always send_always status_ok"] h k
  show ?thesis by blast
qed

section \<open>Inputs of a submission\<close>

text \<open>
  Claim C8: the per-submission pipeline never modifies its inputs. After
  \<^verbatim>\<open>send_modified_transaction\<close> has run, the template payload and the private key
  are what they were, also on every error path, and so they are after any number of
  repetitions of the loop. The mutation is applied to a copy decoded for that repetition:
  a transaction that is sent is the serialisation of the signed result of overwriting the
  last byte in the fresh decode of the unchanged template, with the fresh block hash.
\<close>

theorem submission_keeps_inputs:
  "(case send_modified_transaction L inp w of
      (res, inp', w') \<Rightarrow>
        inp' = inp \<and>
        (\<forall>sg. res = Inr sg \<longrightarrow>
           (\<exists>h w1 kp tx tx' stx raw.
              get_latest_blockhash_with_retry w = (Some h, w1) \<and>
              keypair_from_bytes L (in_private_key inp) = Inr kp \<and>
              lib_decode L (in_base64_data inp) = Some tx \<and>
              set_last_data_byte (randint_script w (n_randint w)) tx = Some tx' \<and>
              lib_sign L kp (tx'\<lparr>message := (message tx')\<lparr>recent_blockhash := h\<rparr>\<rparr>) = Some stx \<and>
              lib_serialize L stx = Some raw \<and>
              trace w' = trace w1 @ [RpcSend raw]))) \<and>
   (\<forall>s. replay_loop L idxs (inp, w) = Some s \<longrightarrow> fst s = inp)"
proof -
  obtain res inp' w' where s: "send_modified_transaction L inp w = (res, inp', w')"
    by (cases "send_modified_transaction L inp w") auto
  from send_frame[OF s] have i: "inp' = inp" by simp
  have "\<forall>sg. res = Inr sg \<longrightarrow>
           (\<exists>h w1 kp tx tx' stx raw.
              get_latest_blockhash_with_retry w = (Some h, w1) \<and>
              keypair_from_bytes L (in_private_key inp) = Inr kp \<and>
              lib_decode L (in_base64_data inp) = Some tx \<and>
              set_last_data_byte (randint_script w (n_randint w)) tx = Some tx' \<and>
              lib_sign L kp (tx'\<lparr>message := (message tx')\<lparr>recent_blockhash := h\<rparr>\<rparr>) = Some stx \<and>
              lib_serialize L stx = Some raw \<and>
              trace w' = trace w1 @ [RpcSend raw])"
  proof (intro allI impI)
    fix sg assume "res = Inr sg"
    with s have "send_modified_transaction L inp w = (Inr sg, inp', w')" by simp
    from send_success[OF this] show "\<exists>h w1 kp tx tx' stx raw.
              get_latest_blockhash_with_retry w = (Some h, w1) \<and>
              keypair_from_bytes L (in_private_key inp) = Inr kp \<and>
              lib_decode L (in_base64_data inp) = Some tx \<and>
              set_last_data_byte (randint_script w (n_randint w)) tx = Some tx' \<and>
              lib_sign L kp (tx'\<lparr>message := (message tx')\<lparr>recent_blockhash := h\<rparr>\<rparr>) = Some stx \<and>
              lib_serialize L stx = Some raw \<and>
              trace w' = trace w1 @ [RpcSend raw]"
      by blast
  qed
  moreover have "\<forall>s. replay_loop L idxs (inp, w) = Some s \<longrightarrow> fst s = inp"
    using replay_loop_inputs by blast
  ultimately show ?thesis unfolding s using i by simp
qed

theorem submission_keeps_inputs_witness:
  "fst (send_modified_transaction lib_demo inputs_demo
          (world_init blockhash_always send_always status_ok)) = Inr ''sig'' \<and>
   fst (snd (send_modified_transaction lib_demo inputs_demo
          (world_init blockhash_always send_always status_ok))) = inputs_demo \<and>
   lib_decode lib_demo (in_base64_data inputs_demo) = Some tx_demo \<and>
   (\<exists>s. replay_loop lib_demo [0, 1]
           (inputs_demo, world_init blockhash_always send_always status_ok) = Some s \<and>
        fst s = inputs_demo)"
proof -
  let ?w = "world_init blockhash_always send_always status_ok"
  have "\<exists>w1. send_modified_transaction lib_demo inputs_demo ?w = (Inr ''sig'', inputs_demo, w1) \<and>
     status_script w1 = status_script ?w \<and> n_status w1 = n_status ?w \<and>
     trace w1 = trace ?w @ [RpcGetBlockhash, RpcSend [1, 2, 3, 9]]"
    by (rule send_demo[of _ "''hash''"])
       (simp_all add: world_init_def blockhash_always_def send_always_def)
  then have a: "fst (send_modified_transaction lib_demo inputs_demo ?w) = Inr ''sig''" by auto
  from replay_loop_total[OF eventually_confirms_ok, where L = lib_demo and idxs = "[0, 1]" and inp = inputs_demo]
  obtain w' where r: "replay_loop lib_demo [0, 1] (inputs_demo, ?w) = Some (inputs_demo, w')"
    by blast
  have d: "lib_decode lib_demo (in_base64_data inputs_demo) = Some tx_demo"
    by (simp add: lib_demo_def inputs_demo_def)
  from submission_keeps_inputs[where L = lib_demo and inp = inputs_demo and w = ?w and idxs = "[0, 1]"] a r d
  show ?thesis by (auto split: prod.splits)
qed

section \<open>The number of iterations\<close>




end
